theory Spec2Isabelle
  imports Main
begin

section \<open>JavaScript values\<close>

text \<open>
  The request bodies are what the JSON body parser hands to the route handlers, and the
  handlers inspect them with JavaScript's own operators (\<open>!x\<close>, \<open>Array.isArray\<close>,
  \<open>typeof\<close>, \<open>Object.keys\<close>, \<open>x[k]\<close>).  A value is therefore a JSON value, with
  \<open>undefined\<close> for what is absent.  An object is the list of its own properties in the
  order they were created (for a parsed body: the order of first occurrence in the JSON
  text), with distinct keys.  A number is an integer here, since the handlers only ever
  read whether a number is zero.  \<open>JNative n\<close> is the built-in member \<open>n\<close> that a value
  inherits from its prototype (a function such as \<open>toString\<close>); such a value never occurs
  in a request body, it can only be the result of a member access.
\<close>

datatype jsval =
    JUndefined
  | JNull
  | JBool bool
  | JNum int
  | JStr string
  | JArr "jsval list"
  | JObj "(string \<times> jsval) list"
  | JNative string

text \<open>\<open>!x\<close> is \<open>\<not> truthy x\<close>.\<close>

fun truthy :: "jsval \<Rightarrow> bool" where
  "truthy JUndefined = False"
| "truthy JNull = False"
| "truthy (JBool b) = b"
| "truthy (JNum n) = (n \<noteq> 0)"
| "truthy (JStr s) = (s \<noteq> [])"
| "truthy (JArr xs) = True"
| "truthy (JObj kvs) = True"
| "truthy (JNative n) = True"

text \<open>\<open>Array.isArray(x)\<close>.\<close>

fun isArray :: "jsval \<Rightarrow> bool" where
  "isArray (JArr xs) = True"
| "isArray v = False"

text \<open>\<open>typeof x === 'object'\<close>: objects, arrays and \<open>null\<close>.\<close>

fun typeof_object :: "jsval \<Rightarrow> bool" where
  "typeof_object (JObj kvs) = True"
| "typeof_object (JArr xs) = True"
| "typeof_object JNull = True"
| "typeof_object v = False"

subsection \<open>Property keys\<close>

text \<open>
  An array index is a canonical decimal numeral (no sign, no leading zero) below
  \<open>2\<^sup>3\<^sup>2 - 1\<close>.  \<open>Object.keys\<close> lists the own keys that are array indices first, in
  ascending numeric order, and then all other keys in creation order.
\<close>

definition is_digit :: "char \<Rightarrow> bool" where
  "is_digit c = (48 \<le> (of_char c :: nat) \<and> (of_char c :: nat) \<le> 57)"

definition digit_value :: "char \<Rightarrow> nat" where
  "digit_value c = of_char c - 48"

definition decimal_value :: "string \<Rightarrow> nat" where
  "decimal_value k = foldl (\<lambda>n c. 10 * n + digit_value c) 0 k"

definition array_index :: "string \<Rightarrow> nat option" where
  "array_index k =
     (if k \<noteq> [] \<and> list_all is_digit k \<and> (hd k \<noteq> CHR ''0'' \<or> length k = 1)
         \<and> decimal_value k < 4294967295
      then Some (decimal_value k) else None)"

definition is_array_index :: "string \<Rightarrow> bool" where
  "is_array_index k = (array_index k \<noteq> None)"

definition own_key_order :: "string list \<Rightarrow> string list" where
  "own_key_order ks =
     sort_key decimal_value (filter is_array_index ks)
       @ filter (\<lambda>k. \<not> is_array_index k) ks"

function index_string :: "nat \<Rightarrow> string" where
  "index_string n =
     (if n < 10 then [''0123456789'' ! n]
      else index_string (n div 10) @ [''0123456789'' ! (n mod 10)])"
  by pat_completeness auto
termination
  by (relation "measure (\<lambda>n. n)") auto

declare index_string.simps [simp del]

subsection \<open>Errors\<close>

text \<open>
  What a \<open>catch\<close> clause receives: the handlers read \<open>err.message\<close>, \<open>err.code\<close> and
  \<open>err.stack\<close>.  A \<open>TypeError\<close> raised by the runtime itself has no \<open>code\<close>; the frames
  of its stack are not modelled.
\<close>

record js_error =
  message :: string
  code :: "string option"
  stack :: string

definition type_error :: "string \<Rightarrow> js_error" where
  "type_error m = \<lparr>message = m, code = None, stack = ''TypeError: '' @ m\<rparr>"

text \<open>
  A template literal \<open>`${v}`\<close> converts \<open>v\<close> to a string, and the conversion can throw.  An
  object of a request body that has an own property \<open>toString\<close> has no callable
  \<open>toString\<close> (a JSON value is not a function) and the \<open>valueOf\<close> it falls back to gives
  no primitive; an array converts each of its elements, \<open>undefined\<close> and \<open>null\<close> apart.
  Everything else converts.
\<close>

fun string_conversion_throws :: "jsval \<Rightarrow> bool" where
  "string_conversion_throws (JObj kvs) = (''toString'' \<in> set (map fst kvs))"
| "string_conversion_throws (JArr xs) = list_ex string_conversion_throws xs"
| "string_conversion_throws v = False"

definition template_literal :: "jsval \<Rightarrow> js_error option" where
  "template_literal v =
     (if string_conversion_throws v
      then Some (type_error ''Cannot convert object to primitive value'') else None)"

subsection \<open>Reading properties\<close>

text \<open>
  \<open>Object.keys(v)\<close> throws on \<open>undefined\<close> and \<open>null\<close>; a primitive number or boolean has
  no own enumerable key; an array and a string have their indices.
\<close>

fun object_keys :: "jsval \<Rightarrow> js_error + string list" where
  "object_keys JUndefined = Inl (type_error ''Cannot convert undefined or null to object'')"
| "object_keys JNull = Inl (type_error ''Cannot convert undefined or null to object'')"
| "object_keys (JObj kvs) = Inr (own_key_order (map fst kvs))"
| "object_keys (JArr xs) = Inr (map index_string [0..<length xs])"
| "object_keys (JStr cs) = Inr (map index_string [0..<length cs])"
| "object_keys v = Inr []"

text \<open>The own property \<open>k\<close> of a value, if it has one.\<close>

fun own_property :: "jsval \<Rightarrow> string \<Rightarrow> jsval option" where
  "own_property (JObj kvs) k = map_of kvs k"
| "own_property (JArr xs) k =
     (if k = ''length'' then Some (JNum (int (length xs)))
      else case array_index k of
             Some i \<Rightarrow> if i < length xs then Some (xs ! i) else None
           | None \<Rightarrow> None)"
| "own_property (JStr cs) k =
     (if k = ''length'' then Some (JNum (int (length cs)))
      else case array_index k of
             Some i \<Rightarrow> if i < length cs then Some (JStr [cs ! i]) else None
           | None \<Rightarrow> None)"
| "own_property v k = None"

text \<open>
  Destructuring a fixed name out of a body (\<open>const { query, params } = req.body\<close>): the
  names the handlers destructure (\<open>query\<close>, \<open>params\<close>, \<open>procedure\<close>, \<open>table\<close>, \<open>data\<close>,
  \<open>queries\<close>) are defined by no prototype of the runtime, so the result is the own
  property or \<open>undefined\<close>.  Destructuring \<open>undefined\<close> or \<open>null\<close> throws.
\<close>

definition get_prop :: "jsval \<Rightarrow> string \<Rightarrow> jsval" where
  "get_prop v k = (case own_property v k of Some x \<Rightarrow> x | None \<Rightarrow> JUndefined)"

datatype jskind = KObject | KArray | KString | KNumber | KBoolean | KFunction

fun kind_of :: "jsval \<Rightarrow> jskind" where
  "kind_of (JArr xs) = KArray"
| "kind_of (JStr cs) = KString"
| "kind_of (JNum n) = KNumber"
| "kind_of (JBool b) = KBoolean"
| "kind_of (JNative n) = KFunction"
| "kind_of v = KObject"

section \<open>The database driver and the runtime\<close>

text \<open>
  \<open>mssql\<close> is outside the repository.  Every call into it is an event of the trace, with
  its outcome; the driver's answer to a call may depend on everything that happened
  before (the trace so far) and on the call's arguments, and is otherwise arbitrary.
\<close>

type_synonym handle = nat

datatype parent = OfPool handle | OfTransaction handle

type_synonym inputs = "(string \<times> jsval) list"

record query_result =
  recordset :: "jsval list option"
  rowsAffected :: "int list"
  output_parameters :: jsval

datatype sql_type = VarCharMax

record bulk_column =
  column_name :: string
  column_type :: sql_type
  nullable :: bool

record bulk_table =
  table_name :: jsval
  columns :: "bulk_column list"
  rows :: "jsval list list"

text \<open>What \<open>console.error\<close> and \<open>console.warn\<close> print.  Of the \<open>console.log\<close> lines only
  those that can throw are modelled, by \<open>template_literal\<close>, where they stand.\<close>

datatype log_entry =
    CloseFailed js_error
  | AttemptFailed nat js_error
  | MaxRetriesReached
  | HandlerError string js_error
  | RollbackFailed js_error
  | ReconnectFailed js_error

datatype event =
    DbConnect "js_error + handle"
  | DbClose handle "js_error option"
  | DbQuery parent inputs jsval "js_error + query_result"
  | DbExecute parent inputs jsval "js_error + query_result"
  | DbBulk handle bulk_table "js_error + int"
  | DbBegin handle "js_error option"
  | DbCommit handle "js_error option"
  | DbRollback handle "js_error option"
  | Sleep nat
  | Console log_entry

record env =
  sql_connect :: "event list \<Rightarrow> js_error + handle"
  pool_close :: "event list \<Rightarrow> handle \<Rightarrow> js_error option"
  request_input :: "inputs \<Rightarrow> string \<Rightarrow> jsval \<Rightarrow> js_error option"
  request_query :: "event list \<Rightarrow> parent \<Rightarrow> inputs \<Rightarrow> jsval \<Rightarrow> js_error + query_result"
  request_execute :: "event list \<Rightarrow> parent \<Rightarrow> inputs \<Rightarrow> jsval \<Rightarrow> js_error + query_result"
  request_bulk :: "event list \<Rightarrow> handle \<Rightarrow> bulk_table \<Rightarrow> js_error + int"
  new_table :: "jsval \<Rightarrow> js_error option"
  transaction_begin :: "event list \<Rightarrow> handle \<Rightarrow> js_error option"
  transaction_commit :: "event list \<Rightarrow> handle \<Rightarrow> js_error option"
  transaction_rollback :: "event list \<Rightarrow> handle \<Rightarrow> js_error option"
  inherited :: "jskind \<Rightarrow> string \<Rightarrow> jsval option"
  node_env :: "string option"
  node_version :: string
  now_iso :: "event list \<Rightarrow> string"

text \<open>
  \<open>v[k]\<close> for a computed key: the own property, else what the prototype chain of the
  value's kind defines for that name (\<open>inherited\<close>, a table of the runtime), else
  \<open>undefined\<close>.  On \<open>undefined\<close> and \<open>null\<close> the access throws.
\<close>

fun member :: "env \<Rightarrow> jsval \<Rightarrow> string \<Rightarrow> js_error + jsval" where
  "member e JUndefined k = Inl (type_error (''Cannot read properties of undefined (reading '' @ k @ '')''))"
| "member e JNull k = Inl (type_error (''Cannot read properties of null (reading '' @ k @ '')''))"
| "member e v k =
     (case own_property v k of
        Some x \<Rightarrow> Inr x
      | None \<Rightarrow> (case inherited e (kind_of v) k of Some x \<Rightarrow> Inr x | None \<Rightarrow> Inr JUndefined))"

section \<open>Process state\<close>

text \<open>
  \<open>let pool\<close> is the only variable shared between calls.  A handler runs here from its
  first statement to its response without another handler touching \<open>pool\<close> in between.
\<close>

record state =
  pool :: "handle option"
  trace :: "event list"

definition emit :: "event \<Rightarrow> state \<Rightarrow> state" where
  "emit ev s = s\<lparr>trace := trace s @ [ev]\<rparr>"

section \<open>initializePool\<close>

definition close_existing :: "env \<Rightarrow> state \<Rightarrow> state" where
  "close_existing e s =
     (case pool s of
        None \<Rightarrow> s
      | Some h \<Rightarrow>
          (let r = pool_close e (trace s) h;
               s1 = emit (DbClose h r) s
           in case r of
                None \<Rightarrow> s1
              | Some closeErr \<Rightarrow> emit (Console (CloseFailed closeErr)) s1))"

definition version_query :: jsval where
  "version_query = JStr ''SELECT @@VERSION AS version''"

text \<open>\<open>testResult.recordset[0].version\<close>, read for the log line; it throws when there is
  no first row.\<close>

definition read_version :: "env \<Rightarrow> query_result \<Rightarrow> js_error + jsval" where
  "read_version e r =
     (case recordset r of
        None \<Rightarrow> Inl (type_error ''Cannot read properties of undefined (reading 0)'')
      | Some [] \<Rightarrow> member e JUndefined ''version''
      | Some (row # others) \<Rightarrow> member e row ''version'')"

text \<open>The \<open>try\<close> block of one iteration.\<close>

definition connect_attempt :: "env \<Rightarrow> state \<Rightarrow> (js_error + handle) \<times> state" where
  "connect_attempt e s =
     (let s1 = close_existing e s;
          c = sql_connect e (trace s1);
          s2 = emit (DbConnect c) s1
      in case c of
           Inl err \<Rightarrow> (Inl err, s2)
         | Inr h \<Rightarrow>
             (let s3 = s2\<lparr>pool := Some h\<rparr>;
                  q = request_query e (trace s3) (OfPool h) [] version_query;
                  s4 = emit (DbQuery (OfPool h) [] version_query q) s3
              in case q of
                   Inl err \<Rightarrow> (Inl err, s4)
                 | Inr testResult \<Rightarrow>
                     (case read_version e testResult of
                        Inl err \<Rightarrow> (Inl err, s4)
                      | Inr v \<Rightarrow> (Inr h, s4))))"

text \<open>
  The \<open>for\<close> loop from iteration \<open>attempt\<close> on.  The result is \<open>Inr (Some h)\<close> for
  \<open>return pool\<close>, \<open>Inl err\<close> for \<open>throw err\<close>, and \<open>Inr None\<close> when the loop ends without
  either (the function then returns \<open>undefined\<close>).
\<close>

function initializePool_from ::
  "env \<Rightarrow> nat \<Rightarrow> nat \<Rightarrow> state \<Rightarrow> (js_error + handle option) \<times> state" where
  "initializePool_from e retryCount attempt s =
     (if attempt \<le> retryCount then
        (case connect_attempt e s of
           (Inr h, s1) \<Rightarrow> (Inr (Some h), s1)
         | (Inl err, s1) \<Rightarrow>
             (let s2 = emit (Console (AttemptFailed attempt err)) s1 in
              if attempt < retryCount
              then initializePool_from e retryCount (attempt + 1)
                     (emit (Sleep (2000 * attempt)) s2)
              else (Inl err, emit (Console MaxRetriesReached) s2)))
      else (Inr None, s))"
  by pat_completeness auto
termination
  by (relation "measure (\<lambda>(e, retryCount, attempt, s). Suc retryCount - attempt)") auto

declare initializePool_from.simps [simp del]

definition initializePool :: "env \<Rightarrow> nat \<Rightarrow> state \<Rightarrow> (js_error + handle option) \<times> state" where
  "initializePool e retryCount s = initializePool_from e retryCount 1 s"

text \<open>
  The guard every handler runs before it uses the pool:
  \<open>if (!pool) { await initializePool(); }\<close>, with the default \<open>retryCount = 5\<close>.
\<close>

definition ensure_pool_initialized :: "env \<Rightarrow> state \<Rightarrow> (js_error + unit) \<times> state" where
  "ensure_pool_initialized e s =
     (case pool s of
        Some h \<Rightarrow> (Inr (), s)
      | None \<Rightarrow>
          (case initializePool e 5 s of
             (Inl err, s1) \<Rightarrow> (Inl err, s1)
           | (Inr p, s1) \<Rightarrow> (Inr (), s1)))"

section \<open>What the handlers share\<close>

type_synonym response = "nat \<times> jsval"

text \<open>\<open>pool.request()\<close> reads the variable; on \<open>undefined\<close> the call throws.\<close>

definition current_pool :: "state \<Rightarrow> js_error + handle" where
  "current_pool s =
     (case pool s of
        None \<Rightarrow> Inl (type_error ''Cannot read properties of undefined (reading request)'')
      | Some h \<Rightarrow> Inr h)"

text \<open>
  \<open>Object.keys(params).forEach(key => { console.log(`... ${params[key]}`);
  request.input(key, params[key]) })\<close>.  The log line converts the value to a string, and
  \<open>request.input\<close> is the driver's and may reject a parameter: either way the loop stops
  there.
\<close>

fun add_inputs :: "env \<Rightarrow> jsval \<Rightarrow> string list \<Rightarrow> inputs \<Rightarrow> js_error + inputs" where
  "add_inputs e params [] ins = Inr ins"
| "add_inputs e params (key # keys) ins =
     (case template_literal (get_prop params key) of
        Some err \<Rightarrow> Inl err
      | None \<Rightarrow>
          (case request_input e ins key (get_prop params key) of
             Some err \<Rightarrow> Inl err
           | None \<Rightarrow> add_inputs e params keys (ins @ [(key, get_prop params key)])))"

definition bind_params :: "env \<Rightarrow> jsval \<Rightarrow> js_error + inputs" where
  "bind_params e params =
     (if truthy params \<and> typeof_object params then
        (case object_keys params of
           Inl err \<Rightarrow> Inl err
         | Inr keys \<Rightarrow> add_inputs e params keys [])
      else Inr [])"

text \<open>\<open>result.recordset\<close> and \<open>result.rowsAffected[0]\<close> as they go into a response.\<close>

definition recordset_json :: "query_result \<Rightarrow> jsval" where
  "recordset_json r = (case recordset r of None \<Rightarrow> JUndefined | Some rs \<Rightarrow> JArr rs)"

definition first_affected :: "query_result \<Rightarrow> jsval" where
  "first_affected r = (case rowsAffected r of [] \<Rightarrow> JUndefined | n # ns \<Rightarrow> JNum n)"

text \<open>The \<open>catch\<close> blocks: the reconnect test, the reconnect, and the 500 response.\<close>

definition connection_issue :: "js_error \<Rightarrow> state \<Rightarrow> bool" where
  "connection_issue err s =
     (code err = Some ''ETIMEOUT'' \<or> code err = Some ''ECONNCLOSED''
        \<or> code err = Some ''ECONNRESET'' \<or> pool s = None)"

definition reconnect :: "env \<Rightarrow> js_error \<Rightarrow> state \<Rightarrow> state" where
  "reconnect e err s =
     (if connection_issue err s then
        (case initializePool e 1 s of
           (Inl reconnectErr, s1) \<Rightarrow> emit (Console (ReconnectFailed reconnectErr)) s1
         | (Inr p, s1) \<Rightarrow> s1)
      else s)"

definition error_response :: "env \<Rightarrow> js_error \<Rightarrow> response" where
  "error_response e err =
     (500, JObj [(''success'', JBool False),
                 (''error'', JStr (message err)),
                 (''errorCode'', (case code err of None \<Rightarrow> JUndefined | Some c \<Rightarrow> JStr c)),
                 (''stack'', (if node_env e = Some ''development''
                              then JStr (stack err) else JUndefined))])"

definition handle_failure :: "env \<Rightarrow> string \<Rightarrow> js_error \<Rightarrow> state \<Rightarrow> response \<times> state" where
  "handle_failure e label err s =
     (error_response e err, reconnect e err (emit (Console (HandlerError label err)) s))"

section \<open>POST /api/query and POST /api/procedure\<close>

text \<open>
  \<open>req.body\<close> is the parsed JSON body, an object or an array (the empty object when the
  request has none).
\<close>

definition query_try ::
  "env \<Rightarrow> jsval \<Rightarrow> jsval \<Rightarrow> state \<Rightarrow> (js_error + response) \<times> state" where
  "query_try e query params s =
     (case ensure_pool_initialized e s of
        (Inl err, s1) \<Rightarrow> (Inl err, s1)
      | (Inr u, s1) \<Rightarrow>
          (case current_pool s1 of
             Inl err \<Rightarrow> (Inl err, s1)
           | Inr h \<Rightarrow>
               (case bind_params e params of
                  Inl err \<Rightarrow> (Inl err, s1)
                | Inr ins \<Rightarrow>
                    (let r = request_query e (trace s1) (OfPool h) ins query;
                         s2 = emit (DbQuery (OfPool h) ins query r) s1
                     in case r of
                          Inl err \<Rightarrow> (Inl err, s2)
                        | Inr result \<Rightarrow>
                            (Inr (200, JObj [(''success'', JBool True),
                                             (''data'', recordset_json result),
                                             (''rowsAffected'', first_affected result)]),
                             s2)))))"

definition query_handler :: "env \<Rightarrow> jsval \<Rightarrow> state \<Rightarrow> response \<times> state" where
  "query_handler e body s =
     (let query = get_prop body ''query'';
          params = get_prop body ''params''
      in if \<not> truthy query then ((400, JObj [(''error'', JStr ''Query is required'')]), s)
         else (case query_try e query params s of
                 (Inr resp, s1) \<Rightarrow> (resp, s1)
               | (Inl err, s1) \<Rightarrow> handle_failure e ''Query execution error:'' err s1))"

text \<open>The procedure handler logs \<open>`Executing procedure: ${procedure}...`\<close> before the call.\<close>

definition procedure_try ::
  "env \<Rightarrow> jsval \<Rightarrow> jsval \<Rightarrow> state \<Rightarrow> (js_error + response) \<times> state" where
  "procedure_try e procedure params s =
     (case ensure_pool_initialized e s of
        (Inl err, s1) \<Rightarrow> (Inl err, s1)
      | (Inr u, s1) \<Rightarrow>
          (case current_pool s1 of
             Inl err \<Rightarrow> (Inl err, s1)
           | Inr h \<Rightarrow>
               (case bind_params e params of
                  Inl err \<Rightarrow> (Inl err, s1)
                | Inr ins \<Rightarrow>
                    (case template_literal procedure of
                       Some err \<Rightarrow> (Inl err, s1)
                     | None \<Rightarrow>
                         (let r = request_execute e (trace s1) (OfPool h) ins procedure;
                              s2 = emit (DbExecute (OfPool h) ins procedure r) s1
                          in case r of
                               Inl err \<Rightarrow> (Inl err, s2)
                             | Inr result \<Rightarrow>
                                 (Inr (200, JObj [(''success'', JBool True),
                                                  (''data'', recordset_json result),
                                                  (''outputParameters'', output_parameters result),
                                                  (''rowsAffected'', first_affected result)]),
                                  s2))))))"

definition procedure_handler :: "env \<Rightarrow> jsval \<Rightarrow> state \<Rightarrow> response \<times> state" where
  "procedure_handler e body s =
     (let procedure = get_prop body ''procedure'';
          params = get_prop body ''params''
      in if \<not> truthy procedure
         then ((400, JObj [(''error'', JStr ''Procedure name is required'')]), s)
         else (case procedure_try e procedure params s of
                 (Inr resp, s1) \<Rightarrow> (resp, s1)
               | (Inl err, s1) \<Rightarrow> handle_failure e ''Procedure execution error:'' err s1))"

section \<open>POST /api/bulk\<close>

text \<open>\<open>columns.map(col => item[col])\<close> for one item.\<close>

fun row_values :: "env \<Rightarrow> jsval \<Rightarrow> string list \<Rightarrow> js_error + jsval list" where
  "row_values e item [] = Inr []"
| "row_values e item (col # cols) =
     (case member e item col of
        Inl err \<Rightarrow> Inl err
      | Inr v \<Rightarrow>
          (case row_values e item cols of
             Inl err \<Rightarrow> Inl err
           | Inr vs \<Rightarrow> Inr (v # vs)))"

text \<open>\<open>data.forEach(item => bulkTable.rows.add(...rowValues))\<close>.\<close>

fun add_rows :: "env \<Rightarrow> string list \<Rightarrow> jsval list \<Rightarrow> js_error + jsval list list" where
  "add_rows e cols [] = Inr []"
| "add_rows e cols (item # items) =
     (case row_values e item cols of
        Inl err \<Rightarrow> Inl err
      | Inr vs \<Rightarrow>
          (case add_rows e cols items of
             Inl err \<Rightarrow> Inl err
           | Inr rs \<Rightarrow> Inr (vs # rs)))"

text \<open>\<open>bulkTable.columns.add(column, sql.VarChar(sql.MAX), { nullable: true })\<close>.\<close>

definition add_column :: "string \<Rightarrow> bulk_column" where
  "add_column column = \<lparr>column_name = column, column_type = VarCharMax, nullable = True\<rparr>"

text \<open>
  Lines 272 to 290: from \<open>Object.keys(data[0])\<close> to the last \<open>rows.add\<close>.  \<open>data\<close> is the
  list of the items of the array, non-empty when the handler gets here; on the empty list
  \<open>data[0]\<close> is \<open>undefined\<close>.  \<open>new sql.Table(table)\<close> is the driver's and throws on a name
  it cannot parse (\<open>new_table\<close>); \<open>columns.add\<close> and \<open>rows.add\<close> only store what they
  are given.
\<close>

definition build_bulk_table :: "env \<Rightarrow> jsval \<Rightarrow> jsval list \<Rightarrow> js_error + bulk_table" where
  "build_bulk_table e table items =
     (case object_keys (case items of [] \<Rightarrow> JUndefined | first # others \<Rightarrow> first) of
        Inl err \<Rightarrow> Inl err
      | Inr cols \<Rightarrow>
          (case new_table e table of
             Some err \<Rightarrow> Inl err
           | None \<Rightarrow>
               (case add_rows e cols items of
                  Inl err \<Rightarrow> Inl err
                | Inr rs \<Rightarrow>
                    Inr \<lparr>table_name = table, columns = map add_column cols, rows = rs\<rparr>)))"

text \<open>The \<open>try\<close> block after the validation; it starts with the log line
  \<open>`Bulk operation: table=${table}, data rows=${data.length}`\<close>.\<close>

definition bulk_try ::
  "env \<Rightarrow> jsval \<Rightarrow> jsval list \<Rightarrow> state \<Rightarrow> (js_error + response) \<times> state" where
  "bulk_try e table items s =
     (case template_literal table of
        Some err \<Rightarrow> (Inl err, s)
      | None \<Rightarrow>
          (case ensure_pool_initialized e s of
             (Inl err, s1) \<Rightarrow> (Inl err, s1)
           | (Inr u, s1) \<Rightarrow>
               (case build_bulk_table e table items of
                  Inl err \<Rightarrow> (Inl err, s1)
                | Inr bulkTable \<Rightarrow>
                    (case current_pool s1 of
                       Inl err \<Rightarrow> (Inl err, s1)
                     | Inr h \<Rightarrow>
                         (let r = request_bulk e (trace s1) h bulkTable;
                              s2 = emit (DbBulk h bulkTable r) s1
                          in case r of
                               Inl err \<Rightarrow> (Inl err, s2)
                             | Inr n \<Rightarrow>
                                 (Inr (200, JObj [(''success'', JBool True),
                                                  (''rowsAffected'', JNum n)]),
                                  s2))))))"

fun items_of :: "jsval \<Rightarrow> jsval list" where
  "items_of (JArr xs) = xs"
| "items_of v = []"

definition bulk_handler :: "env \<Rightarrow> jsval \<Rightarrow> state \<Rightarrow> response \<times> state" where
  "bulk_handler e body s =
     (let table = get_prop body ''table'';
          data = get_prop body ''data''
      in if \<not> truthy table \<or> \<not> truthy data \<or> \<not> isArray data \<or> length (items_of data) = 0
         then ((400, JObj [(''error'', JStr ''Valid table name and data array are required'')]), s)
         else (case bulk_try e table (items_of data) s of
                 (Inr resp, s1) \<Rightarrow> (resp, s1)
               | (Inl err, s1) \<Rightarrow> handle_failure e ''Bulk operation error:'' err s1))"

section \<open>POST /api/transaction\<close>

text \<open>\<open>const { query, params } = queryInfo\<close>.\<close>

fun destructure_query :: "jsval \<Rightarrow> js_error + jsval \<times> jsval" where
  "destructure_query JUndefined =
     Inl (type_error ''Cannot destructure property query of queryInfo as it is undefined.'')"
| "destructure_query JNull =
     Inl (type_error ''Cannot destructure property query of queryInfo as it is null.'')"
| "destructure_query v = Inr (get_prop v ''query'', get_prop v ''params'')"

definition statement_result :: "query_result \<Rightarrow> jsval" where
  "statement_result r = JObj [(''data'', recordset_json r), (''rowsAffected'', first_affected r)]"

text \<open>The \<open>for\<close> loop over \<open>queries\<close>, with the \<open>results\<close> pushed so far.\<close>

fun run_statements ::
  "env \<Rightarrow> handle \<Rightarrow> jsval list \<Rightarrow> jsval list \<Rightarrow> state \<Rightarrow> (js_error + jsval list) \<times> state" where
  "run_statements e h [] results s = (Inr results, s)"
| "run_statements e h (queryInfo # rest) results s =
     (case destructure_query queryInfo of
        Inl err \<Rightarrow> (Inl err, s)
      | Inr (query, params) \<Rightarrow>
          (case bind_params e params of
             Inl err \<Rightarrow> (Inl err, s)
           | Inr ins \<Rightarrow>
               (let r = request_query e (trace s) (OfTransaction h) ins query;
                    s1 = emit (DbQuery (OfTransaction h) ins query r) s
                in case r of
                     Inl err \<Rightarrow> (Inl err, s1)
                   | Inr result \<Rightarrow>
                       run_statements e h rest (results @ [statement_result result]) s1)))"

text \<open>From \<open>transaction.begin()\<close> to \<open>transaction.commit()\<close>.\<close>

definition transaction_body ::
  "env \<Rightarrow> handle \<Rightarrow> jsval list \<Rightarrow> state \<Rightarrow> (js_error + jsval list) \<times> state" where
  "transaction_body e h queries s =
     (let b = transaction_begin e (trace s) h;
          s1 = emit (DbBegin h b) s
      in case b of
           Some err \<Rightarrow> (Inl err, s1)
         | None \<Rightarrow>
             (case run_statements e h queries [] s1 of
                (Inl err, s2) \<Rightarrow> (Inl err, s2)
              | (Inr results, s2) \<Rightarrow>
                  (let c = transaction_commit e (trace s2) h;
                       s3 = emit (DbCommit h c) s2
                   in case c of
                        Some err \<Rightarrow> (Inl err, s3)
                      | None \<Rightarrow> (Inr results, s3))))"

definition rollback :: "env \<Rightarrow> handle \<Rightarrow> state \<Rightarrow> state" where
  "rollback e h s =
     (let r = transaction_rollback e (trace s) h;
          s1 = emit (DbRollback h r) s
      in case r of
           None \<Rightarrow> s1
         | Some rollbackErr \<Rightarrow> emit (Console (RollbackFailed rollbackErr)) s1)"

text \<open>The \<open>catch\<close> block; \<open>tx\<close> is the variable \<open>transaction\<close>, unset until the pool guard
  has passed.\<close>

definition transaction_catch ::
  "env \<Rightarrow> handle option \<Rightarrow> js_error \<Rightarrow> state \<Rightarrow> response \<times> state" where
  "transaction_catch e tx err s =
     (let s1 = emit (Console (HandlerError ''Transaction error:'' err)) s;
          s2 = (case tx of None \<Rightarrow> s1 | Some h \<Rightarrow> rollback e h s1)
      in (error_response e err, reconnect e err s2))"

text \<open>
  After the guard has passed the variable \<open>pool\<close> is set (lemma \<open>ensure_pool_sets_pool\<close>
  below), so \<open>new sql.Transaction(pool)\<close> always gets a pool; the branch for an unset
  pool is never taken.
\<close>

definition transaction_handler :: "env \<Rightarrow> jsval \<Rightarrow> state \<Rightarrow> response \<times> state" where
  "transaction_handler e body s =
     (let queries = get_prop body ''queries''
      in if \<not> truthy queries \<or> \<not> isArray queries \<or> length (items_of queries) = 0
         then ((400, JObj [(''error'', JStr ''Valid queries array is required'')]), s)
         else (case ensure_pool_initialized e s of
                 (Inl err, s1) \<Rightarrow> transaction_catch e None err s1
               | (Inr u, s1) \<Rightarrow>
                   (case current_pool s1 of
                      Inl err \<Rightarrow> transaction_catch e None err s1
                    | Inr h \<Rightarrow>
                        (case transaction_body e h (items_of queries) s1 of
                           (Inl err, s2) \<Rightarrow> transaction_catch e (Some h) err s2
                         | (Inr results, s2) \<Rightarrow>
                             ((200, JObj [(''success'', JBool True),
                                          (''results'', JArr results)]),
                              s2)))))"

section \<open>GET /api/health\<close>

definition health_response :: "env \<Rightarrow> state \<Rightarrow> bool \<Rightarrow> string \<Rightarrow> response" where
  "health_response e s connected msg =
     (200, JObj [(''status'', JStr ''OK''),
                 (''message'', JStr ''Service is running''),
                 (''environment'', (case node_env e of None \<Rightarrow> JUndefined | Some v \<Rightarrow> JStr v)),
                 (''node_version'', JStr (node_version e)),
                 (''database'', JObj [(''connected'', JBool connected), (''message'', JStr msg)]),
                 (''timestamp'', JStr (now_iso e (trace s)))])"

text \<open>
  The reconnect in the \<open>catch\<close> block is started and not awaited
  (\<open>initializePool(1).catch(() => {})\<close>): the response does not depend on it.  Its effects
  are put into the state the handler leaves behind.
\<close>

definition health_handler :: "env \<Rightarrow> state \<Rightarrow> response \<times> state" where
  "health_handler e s =
     (case pool s of
        None \<Rightarrow> (health_response e s False ''Connection pool not initialized'', s)
      | Some h \<Rightarrow>
          (let r = request_query e (trace s) (OfPool h) [] (JStr ''SELECT 1 AS result'');
               s1 = emit (DbQuery (OfPool h) [] (JStr ''SELECT 1 AS result'') r) s
           in case r of
                Inr result \<Rightarrow> (health_response e s1 True ''Connected'', s1)
              | Inl err \<Rightarrow>
                  (health_response e s1 False (''Error: '' @ message err),
                   snd (initializePool e 1 s1))))"

section \<open>Reading a trace\<close>

text \<open>The events a call appended: what is in the trace after it and was not before.\<close>

definition new_events :: "state \<Rightarrow> state \<Rightarrow> event list" where
  "new_events s s' = drop (length (trace s)) (trace s')"

text \<open>The retry schedule of a trace: connection attempts, logged failures of an attempt,
  and waits, in the order they happened.\<close>

datatype step = Attempt | Failed nat | Wait nat

fun schedule :: "event list \<Rightarrow> step list" where
  "schedule [] = []"
| "schedule (DbConnect r # evs) = Attempt # schedule evs"
| "schedule (Console (AttemptFailed k err) # evs) = Failed k # schedule evs"
| "schedule (Sleep d # evs) = Wait d # schedule evs"
| "schedule (ev # evs) = schedule evs"

text \<open>The statements, procedure calls and bulk writes of a trace, without the validation
  query that \<open>initializePool\<close> sends on a fresh pool.\<close>

fun is_probe :: "event \<Rightarrow> bool" where
  "is_probe (DbQuery (OfPool h) [] q r) = (q = version_query)"
| "is_probe ev = False"

fun is_request :: "event \<Rightarrow> bool" where
  "is_request (DbQuery p ins q r) = True"
| "is_request (DbExecute p ins q r) = True"
| "is_request (DbBulk h t r) = True"
| "is_request ev = False"

definition requests :: "event list \<Rightarrow> event list" where
  "requests evs = filter (\<lambda>ev. is_request ev \<and> \<not> is_probe ev) evs"

text \<open>The schedule of the rounds \<open>a, a + 1, \<dots>, n - 1\<close> of the retry loop when each of
  them fails.\<close>

definition rounds :: "nat \<Rightarrow> nat \<Rightarrow> step list" where
  "rounds a n = concat (map (\<lambda>k. [Attempt, Failed k, Wait (2000 * k)]) [a..<n])"

section \<open>Example environments\<close>

text \<open>A server that cannot be reached: every call into the driver fails.\<close>

definition refused :: js_error where
  "refused = \<lparr>message = ''Failed to connect to db:1433'', code = Some ''ESOCKET'',
               stack = ''ConnectionError: Failed to connect to db:1433''\<rparr>"

definition no_prototype :: "jskind \<Rightarrow> string \<Rightarrow> jsval option" where
  "no_prototype kd k = None"

definition offline_env :: env where
  "offline_env =
     \<lparr>sql_connect = (\<lambda>t. Inl refused),
      pool_close = (\<lambda>t h. None),
      request_input = (\<lambda>ins k v. None),
      request_query = (\<lambda>t p ins q. Inl refused),
      request_execute = (\<lambda>t p ins q. Inl refused),
      request_bulk = (\<lambda>t h b. Inl refused),
      new_table = (\<lambda>name. None),
      transaction_begin = (\<lambda>t h. Some refused),
      transaction_commit = (\<lambda>t h. Some refused),
      transaction_rollback = (\<lambda>t h. Some refused),
      inherited = no_prototype,
      node_env = Some ''production'',
      node_version = ''v18.17.0'',
      now_iso = (\<lambda>t. ''2024-01-01T00:00:00.000Z'')\<rparr>"

definition no_pool :: state where
  "no_pool = \<lparr>pool = None, trace = []\<rparr>"

definition live_pool :: state where
  "live_pool = \<lparr>pool = Some 1, trace = []\<rparr>"

text \<open>A server that answers every call; values inherit the members of
  \<open>Object.prototype\<close>.\<close>

definition object_prototype :: "jskind \<Rightarrow> string \<Rightarrow> jsval option" where
  "object_prototype kd k =
     (if k \<in> set [''constructor'', ''hasOwnProperty'', ''isPrototypeOf'',
                   ''propertyIsEnumerable'', ''toLocaleString'', ''toString'', ''valueOf'',
                   ''__proto__'', ''__defineGetter__'', ''__defineSetter__'',
                   ''__lookupGetter__'', ''__lookupSetter__'']
      then Some (JNative k) else None)"

definition one_row :: query_result where
  "one_row = \<lparr>recordset = Some [JObj [(''x'', JNum 1)]], rowsAffected = [1],
              output_parameters = JObj []\<rparr>"

definition healthy_env :: env where
  "healthy_env =
     \<lparr>sql_connect = (\<lambda>t. Inr 1),
      pool_close = (\<lambda>t h. None),
      request_input = (\<lambda>ins k v. None),
      request_query = (\<lambda>t p ins q. Inr one_row),
      request_execute = (\<lambda>t p ins q. Inr one_row),
      request_bulk = (\<lambda>t h b. Inr (int (length (rows b)))),
      new_table = (\<lambda>name. None),
      transaction_begin = (\<lambda>t h. None),
      transaction_commit = (\<lambda>t h. None),
      transaction_rollback = (\<lambda>t h. None),
      inherited = object_prototype,
      node_env = Some ''production'',
      node_version = ''v18.17.0'',
      now_iso = (\<lambda>t. ''2024-01-01T00:00:00.000Z'')\<rparr>"

text \<open>How many connection attempts a trace holds.\<close>

definition attempts :: "event list \<Rightarrow> nat" where
  "attempts evs = length (filter (\<lambda>x. x = Attempt) (schedule evs))"

definition timed_out :: js_error where
  "timed_out = \<lparr>message = ''Timeout: Request failed to complete in 30000ms'',
                code = Some ''ETIMEOUT'',
                stack = ''RequestError: Timeout: Request failed to complete in 30000ms''\<rparr>"

definition bad_syntax :: js_error where
  "bad_syntax = \<lparr>message = ''Incorrect syntax near FORM.'', code = Some ''EREQUEST'',
                 stack = ''RequestError: Incorrect syntax near FORM.''\<rparr>"

definition batch_result :: query_result where
  "batch_result = \<lparr>recordset = None, rowsAffected = [2, 3],
                    output_parameters = JObj [(''total'', JNum 5)]\<rparr>"

text \<open>A server on which every statement fails with the given error and that cannot be
  reached again once the pool is closed.\<close>

definition failing_env :: "js_error \<Rightarrow> env" where
  "failing_env err =
     healthy_env\<lparr>sql_connect := (\<lambda>t. Inl refused),
                  request_query := (\<lambda>t p ins q. Inl err),
                  request_execute := (\<lambda>t p ins q. Inl err)\<rparr>"

definition batch_env :: env where
  "batch_env = healthy_env\<lparr>request_execute := (\<lambda>t p ins q. Inr batch_result)\<rparr>"

text \<open>A row that is an object, the tables of the bulk writes of a trace, and two rows
  that are objects and have the same own property, or both none, for every given column.\<close>

fun is_object :: "jsval \<Rightarrow> bool" where
  "is_object (JObj kvs) = True"
| "is_object v = False"

fun bulk_tables :: "event list \<Rightarrow> bulk_table list" where
  "bulk_tables [] = []"
| "bulk_tables (DbBulk h t r # evs) = t # bulk_tables evs"
| "bulk_tables (ev # evs) = bulk_tables evs"

fun same_on :: "string list \<Rightarrow> jsval \<Rightarrow> jsval \<Rightarrow> bool" where
  "same_on cols (JObj kvs) (JObj kvs') = list_all (\<lambda>c. map_of kvs c = map_of kvs' c) cols"
| "same_on cols v v' = False"

text \<open>
  The events \<open>initializePool\<close> and the log lines leave in a trace, the statements a trace
  sent inside a transaction (text, bound parameters, outcome), and its commits.
\<close>

fun pool_event :: "event \<Rightarrow> bool" where
  "pool_event (DbConnect r) = True"
| "pool_event (DbClose h r) = True"
| "pool_event (DbQuery (OfPool h) [] q r) = (q = version_query)"
| "pool_event (Sleep d) = True"
| "pool_event (Console l) = True"
| "pool_event ev = False"

fun tx_statements :: "event list \<Rightarrow> (jsval \<times> inputs \<times> (js_error + query_result)) list" where
  "tx_statements [] = []"
| "tx_statements (DbQuery (OfTransaction h) ins q r # evs) = (q, ins, r) # tx_statements evs"
| "tx_statements (ev # evs) = tx_statements evs"

fun commits :: "event list \<Rightarrow> event list" where
  "commits [] = []"
| "commits (DbCommit h r # evs) = DbCommit h r # commits evs"
| "commits (ev # evs) = commits evs"

definition inputs_of :: "env \<Rightarrow> jsval \<Rightarrow> inputs" where
  "inputs_of e queryInfo =
     (case bind_params e (get_prop queryInfo ''params'') of Inr ins \<Rightarrow> ins | Inl err \<Rightarrow> [])"

definition statement_event :: "env \<Rightarrow> handle \<Rightarrow> jsval \<Rightarrow> js_error + query_result \<Rightarrow> event" where
  "statement_event e h queryInfo r =
     DbQuery (OfTransaction h) (inputs_of e queryInfo) (get_prop queryInfo ''query'') r"

text \<open>The events of the statements of a transaction that succeeded: one per result, for
  the first statements of the list.\<close>

definition ok_events :: "env \<Rightarrow> handle \<Rightarrow> jsval list \<Rightarrow> query_result list \<Rightarrow> event list" where
  "ok_events e h qs rs = map (\<lambda>(queryInfo, r). statement_event e h queryInfo (Inr r)) (zip qs rs)"

text \<open>
  A transaction of three statements, the second with a parameter; and a server on which
  the statement \<open>B\<close> fails and a rollback fails too.
\<close>

definition abc_body :: jsval where
  "abc_body = JObj [(''queries'', JArr [JObj [(''query'', JStr ''A'')],
                                        JObj [(''query'', JStr ''B''),
                                              (''params'', JObj [(''id'', JNum 7)])],
                                        JObj [(''query'', JStr ''C'')]])]"

definition numbered_result :: "jsval \<Rightarrow> int \<Rightarrow> query_result" where
  "numbered_result q n =
     \<lparr>recordset = Some [JObj [(''q'', q)]], rowsAffected = [n, 0], output_parameters = JUndefined\<rparr>"

text \<open>A server whose result for a statement tells the statement's text and how many events
  the trace held when the statement arrived.\<close>

definition numbered_env :: env where
  "numbered_env =
     healthy_env\<lparr>request_query := (\<lambda>t p ins q. Inr (numbered_result q (int (length t))))\<rparr>"

definition broken_tx_env :: env where
  "broken_tx_env =
     healthy_env\<lparr>request_query := (\<lambda>t p ins q. if q = JStr ''B'' then Inl bad_syntax else Inr one_row),
                  transaction_rollback := (\<lambda>t h. Some timed_out)\<rparr>"

section \<open>Traces of initializePool\<close>

lemma schedule_append: "schedule (xs @ ys) = schedule xs @ schedule ys"
  by (induction xs rule: schedule.induct) auto

lemma requests_append: "requests (xs @ ys) = requests xs @ requests ys"
  by (simp add: requests_def)

lemma requests_Cons:
  "requests (ev # evs) = (if is_request ev \<and> \<not> is_probe ev then ev # requests evs else requests evs)"
  by (simp add: requests_def)

lemma requests_Nil: "requests [] = []"
  by (simp add: requests_def)

lemma trace_emit: "trace (emit ev s) = trace s @ [ev]"
  by (simp add: emit_def)

lemma pool_emit: "pool (emit ev s) = pool s"
  by (simp add: emit_def)

lemma close_existing_events:
  "\<exists>evs. trace (close_existing e s) = trace s @ evs \<and> schedule evs = [] \<and> requests evs = []"
  by (auto simp: close_existing_def Let_def trace_emit requests_def split: option.splits)

lemma connect_attempt_events:
  assumes "connect_attempt e s = (r, s')"
  shows "\<exists>evs. trace s' = trace s @ evs \<and> schedule evs = [Attempt] \<and> requests evs = []"
proof -
  obtain evs0 where c: "trace (close_existing e s) = trace s @ evs0" "schedule evs0 = []" "requests evs0 = []"
    using close_existing_events by blast
  show ?thesis using assms c
    by (auto simp: connect_attempt_def Let_def trace_emit schedule_append requests_append requests_def
        split: sum.splits)
qed

lemma connect_attempt_ok_pool:
  "connect_attempt e s = (Inr h, s') \<Longrightarrow> pool s' = Some h"
  by (auto simp: connect_attempt_def Let_def pool_emit split: sum.splits)


lemma rounds_step: "a < n \<Longrightarrow> rounds a n = [Attempt, Failed a, Wait (2000 * a)] @ rounds (Suc a) n"
  by (simp add: rounds_def upt_conv_Cons)

lemma initializePool_from_fail:
  "initializePool_from e n a s = (Inl err, s') \<Longrightarrow>
   \<exists>evs. trace s' = trace s @ evs
        \<and> schedule evs = rounds a n @ [Attempt, Failed n]
        \<and> Console (AttemptFailed n err) \<in> set evs
        \<and> requests evs = []"
proof (induction "n - a" arbitrary: a s)
  case 0
  from "0.prems" have le: "a \<le> n"
    by (subst (asm) initializePool_from.simps) (auto split: if_splits)
  with "0.hyps" have an: "a = n" by simp
  obtain r s1 where ca: "connect_attempt e s = (r, s1)" by (cases "connect_attempt e s")
  from connect_attempt_events[OF ca] obtain evs1 where
    e1: "trace s1 = trace s @ evs1" "schedule evs1 = [Attempt]" "requests evs1 = []" by blast
  from "0.prems" ca an have "r = Inl err" and
    s': "s' = emit (Console MaxRetriesReached) (emit (Console (AttemptFailed n err)) s1)"
    by (subst (asm) initializePool_from.simps; auto simp: Let_def split: sum.splits)+
  have "trace s' = trace s @ (evs1 @ [Console (AttemptFailed n err), Console MaxRetriesReached])"
    by (simp add: s' trace_emit e1)
  moreover have "schedule (evs1 @ [Console (AttemptFailed n err), Console MaxRetriesReached])
      = rounds a n @ [Attempt, Failed n]"
    by (simp add: schedule_append e1 an rounds_def)
  moreover have "requests (evs1 @ [Console (AttemptFailed n err), Console MaxRetriesReached]) = []"
    by (simp add: requests_append requests_Cons requests_Nil e1)
  ultimately show ?case by (intro exI[of _ "evs1 @ [Console (AttemptFailed n err), Console MaxRetriesReached]"]) simp
next
  case (Suc d)
  from Suc.hyps(2) have lt: "a < n" by simp
  obtain r s1 where ca: "connect_attempt e s = (r, s1)" by (cases "connect_attempt e s")
  from connect_attempt_events[OF ca] obtain evs1 where
    e1: "trace s1 = trace s @ evs1" "schedule evs1 = [Attempt]" "requests evs1 = []" by blast
  from Suc.prems ca lt obtain err1 where r: "r = Inl err1" and
    rec: "initializePool_from e n (a + 1)
            (emit (Sleep (2000 * a)) (emit (Console (AttemptFailed a err1)) s1)) = (Inl err, s')"
    by (subst (asm) initializePool_from.simps) (auto simp: Let_def split: sum.splits)
  let ?s2 = "emit (Sleep (2000 * a)) (emit (Console (AttemptFailed a err1)) s1)"
  have d: "d = n - (a + 1)" using Suc.hyps(2) by simp
  from Suc.hyps(1)[OF d rec] obtain evs2 where
    e2: "trace s' = trace ?s2 @ evs2" "schedule evs2 = rounds (a + 1) n @ [Attempt, Failed n]"
        "Console (AttemptFailed n err) \<in> set evs2" "requests evs2 = []" by blast
  let ?evs = "evs1 @ [Console (AttemptFailed a err1), Sleep (2000 * a)] @ evs2"
  have "trace s' = trace s @ ?evs" by (simp add: e2 trace_emit e1)
  moreover have "schedule ?evs = rounds a n @ [Attempt, Failed n]"
    by (simp add: schedule_append e1 e2 rounds_step[OF lt])
  moreover have "Console (AttemptFailed n err) \<in> set ?evs" using e2 by simp
  moreover have "requests ?evs = []"
    by (simp add: requests_append requests_Cons requests_Nil e1 e2)
  ultimately show ?case by blast
qed

lemma rounds_5: "rounds 1 5 = [Attempt, Failed 1, Wait 2000, Attempt, Failed 2, Wait 4000,
   Attempt, Failed 3, Wait 6000, Attempt, Failed 4, Wait 8000]"
  by (simp add: rounds_def upt_conv_Cons)


section \<open>The retry loop\<close>

lemma offline_attempt: "fst (connect_attempt offline_env s) = Inl refused"
  by (simp add: connect_attempt_def Let_def offline_env_def)

lemma offline_from:
  "a \<le> n \<Longrightarrow> fst (initializePool_from offline_env n a s) = Inl refused"
proof (induction "n - a" arbitrary: a s)
  case 0
  then have "a = n" by simp
  obtain s1 where "connect_attempt offline_env s = (Inl refused, s1)"
    using offline_attempt[of s] by (cases "connect_attempt offline_env s") simp
  with \<open>a = n\<close> show ?case
    by (subst initializePool_from.simps) (simp add: Let_def)
next
  case (Suc d)
  then have lt: "a < n" and d: "d = n - (a + 1)" and le: "a + 1 \<le> n" by simp_all
  obtain s1 where "connect_attempt offline_env s = (Inl refused, s1)"
    using offline_attempt[of s] by (cases "connect_attempt offline_env s") simp
  with lt Suc.hyps(1)[OF d le] show ?case
    by (subst initializePool_from.simps) (simp add: Let_def)
qed

lemma offline_run:
  "initializePool offline_env 5 no_pool =
     (Inl refused, snd (initializePool offline_env 5 no_pool))"
  using offline_from[of 1 5 no_pool]
  by (cases "initializePool offline_env 5 no_pool") (simp add: initializePool_def)

text \<open>
  Claim C3.  When \<open>initializePool(5)\<close> fails, it has made exactly five connection
  attempts, each of them logged as failed; it has waited 2000 ms times the attempt number
  after each of the first four and not after the fifth; and the error it throws is the one
  the fifth attempt failed with.
\<close>

theorem initializePool_exhausts_five_attempts:
  assumes "initializePool e 5 s = (Inl err, s')"
  shows "trace s' = trace s @ new_events s s'
       \<and> schedule (new_events s s') =
           [Attempt, Failed 1, Wait 2000, Attempt, Failed 2, Wait 4000,
            Attempt, Failed 3, Wait 6000, Attempt, Failed 4, Wait 8000, Attempt, Failed 5]
       \<and> Console (AttemptFailed 5 err) \<in> set (new_events s s')"
proof -
  from assms have "initializePool_from e 5 1 s = (Inl err, s')"
    by (simp add: initializePool_def)
  from initializePool_from_fail[OF this] obtain evs where
    evs: "trace s' = trace s @ evs" "schedule evs = rounds 1 5 @ [Attempt, Failed 5]"
         "Console (AttemptFailed 5 err) \<in> set evs" by blast
  have n: "new_events s s' = evs" by (simp add: new_events_def evs(1))
  have "schedule evs =
           [Attempt, Failed 1, Wait 2000, Attempt, Failed 2, Wait 4000,
            Attempt, Failed 3, Wait 6000, Attempt, Failed 4, Wait 8000, Attempt, Failed 5]"
    unfolding evs(2) rounds_5 by simp
  with evs(1,3) n show ?thesis by simp
qed

theorem initializePool_exhausts_five_attempts_witness:
  "fst (initializePool offline_env 5 no_pool) = Inl refused
   \<and> schedule (new_events no_pool (snd (initializePool offline_env 5 no_pool))) =
           [Attempt, Failed 1, Wait 2000, Attempt, Failed 2, Wait 4000,
            Attempt, Failed 3, Wait 6000, Attempt, Failed 4, Wait 8000, Attempt, Failed 5]"
  using initializePool_exhausts_five_attempts[OF offline_run] offline_run
  by (metis fst_conv)


section \<open>Validation\<close>

text \<open>
  Claim C4.  A query request without a (truthy) \<open>query\<close>, a procedure request without a
  (truthy) \<open>procedure\<close>, and a bulk request whose \<open>table\<close> is missing or empty or whose
  \<open>data\<close> is not an array or is the empty array, are answered with status 400 and an
  \<open>error\<close> message, and the state is left as it was: the pool is not initialised and
  nothing is added to the trace, so no call reaches the driver.
\<close>

theorem invalid_request_is_rejected_before_the_database:
  "(\<not> truthy (get_prop body ''query'') \<longrightarrow>
      query_handler e body s = ((400, JObj [(''error'', JStr ''Query is required'')]), s))
   \<and> (\<not> truthy (get_prop body ''procedure'') \<longrightarrow>
      procedure_handler e body s =
        ((400, JObj [(''error'', JStr ''Procedure name is required'')]), s))
   \<and> (\<not> truthy (get_prop body ''table'') \<or> \<not> isArray (get_prop body ''data'')
        \<or> items_of (get_prop body ''data'') = [] \<longrightarrow>
      bulk_handler e body s =
        ((400, JObj [(''error'', JStr ''Valid table name and data array are required'')]), s))"
  by (simp add: query_handler_def procedure_handler_def bulk_handler_def Let_def)

theorem invalid_request_is_rejected_before_the_database_witness:
  "query_handler offline_env (JObj []) no_pool =
      ((400, JObj [(''error'', JStr ''Query is required'')]), no_pool)
   \<and> procedure_handler offline_env (JObj [(''procedure'', JStr [])]) no_pool =
      ((400, JObj [(''error'', JStr ''Procedure name is required'')]), no_pool)
   \<and> bulk_handler offline_env (JObj [(''table'', JStr ''t''), (''data'', JArr [])]) no_pool =
      ((400, JObj [(''error'', JStr ''Valid table name and data array are required'')]), no_pool)
   \<and> bulk_handler offline_env (JObj [(''table'', JStr ''t''), (''data'', JStr ''rows'')]) no_pool =
      ((400, JObj [(''error'', JStr ''Valid table name and data array are required'')]), no_pool)
   \<and> bulk_handler offline_env (JObj [(''table'', JStr []), (''data'', JArr [JObj []])]) no_pool =
      ((400, JObj [(''error'', JStr ''Valid table name and data array are required'')]), no_pool)"
  using invalid_request_is_rejected_before_the_database[of "JObj []" offline_env no_pool]
    invalid_request_is_rejected_before_the_database
      [of "JObj [(''procedure'', JStr [])]" offline_env no_pool]
    invalid_request_is_rejected_before_the_database
      [of "JObj [(''table'', JStr ''t''), (''data'', JArr [])]" offline_env no_pool]
    invalid_request_is_rejected_before_the_database
      [of "JObj [(''table'', JStr ''t''), (''data'', JStr ''rows'')]" offline_env no_pool]
    invalid_request_is_rejected_before_the_database
      [of "JObj [(''table'', JStr []), (''data'', JArr [JObj []])]" offline_env no_pool]
  by (simp add: get_prop_def)

section \<open>Health\<close>

text \<open>
  Claim C9.  Whatever the state of the pool and whatever the driver does, the health
  handler answers with status 200 and \<open>status: 'OK'\<close>.  Only the \<open>database\<close> field tells
  the states apart: not connected with a message when there is no pool or when the probe
  query fails, connected when the probe succeeds.
\<close>

theorem health_always_answers_ok:
  "fst (fst (health_handler e s)) = 200
   \<and> get_prop (snd (fst (health_handler e s))) ''status'' = JStr ''OK''
   \<and> get_prop (snd (fst (health_handler e s))) ''database'' =
       (case pool s of
          None \<Rightarrow> JObj [(''connected'', JBool False),
                         (''message'', JStr ''Connection pool not initialized'')]
        | Some h \<Rightarrow>
            (case request_query e (trace s) (OfPool h) [] (JStr ''SELECT 1 AS result'') of
               Inl err \<Rightarrow> JObj [(''connected'', JBool False),
                                  (''message'', JStr (''Error: '' @ message err))]
             | Inr result \<Rightarrow> JObj [(''connected'', JBool True),
                                     (''message'', JStr ''Connected'')]))"
  by (simp add: health_handler_def health_response_def get_prop_def Let_def
      split: option.splits sum.splits)

theorem health_always_answers_ok_witness:
  "fst (fst (health_handler offline_env no_pool)) = 200
   \<and> get_prop (snd (fst (health_handler offline_env no_pool))) ''database'' =
       JObj [(''connected'', JBool False), (''message'', JStr ''Connection pool not initialized'')]
   \<and> fst (fst (health_handler offline_env live_pool)) = 200
   \<and> get_prop (snd (fst (health_handler offline_env live_pool))) ''status'' = JStr ''OK''
   \<and> get_prop (snd (fst (health_handler offline_env live_pool))) ''database'' =
       JObj [(''connected'', JBool False),
             (''message'', JStr ''Error: Failed to connect to db:1433'')]
   \<and> fst (fst (health_handler healthy_env live_pool)) = 200
   \<and> get_prop (snd (fst (health_handler healthy_env live_pool))) ''database'' =
       JObj [(''connected'', JBool True), (''message'', JStr ''Connected'')]"
  using health_always_answers_ok[of offline_env no_pool]
    health_always_answers_ok[of offline_env live_pool]
    health_always_answers_ok[of healthy_env live_pool]
  by (simp add: no_pool_def live_pool_def offline_env_def healthy_env_def refused_def)

section \<open>Executing a statement\<close>

lemma error_response_status: "fst (error_response e err) = 500"
  by (simp add: error_response_def)

lemma handle_failure_status: "fst (fst (handle_failure e label err s)) = 500"
  by (simp add: handle_failure_def error_response_def)

lemma query_try_ok:
  assumes "query_try e q ps s = (Inr resp, s')"
  shows "\<exists>evs h ins result.
           trace s' = evs @ [DbQuery (OfPool h) ins q (Inr result)]
         \<and> resp = (200, JObj [(''success'', JBool True), (''data'', recordset_json result),
                              (''rowsAffected'',
                               (case rowsAffected result of [] \<Rightarrow> JUndefined | n # ns \<Rightarrow> JNum n))])"
  using assms
  by (auto simp: query_try_def Let_def trace_emit first_affected_def
      split: prod.splits sum.splits)

lemma procedure_try_ok:
  assumes "procedure_try e q ps s = (Inr resp, s')"
  shows "\<exists>evs h ins result.
           trace s' = evs @ [DbExecute (OfPool h) ins q (Inr result)]
         \<and> resp = (200, JObj [(''success'', JBool True), (''data'', recordset_json result),
                              (''outputParameters'', output_parameters result),
                              (''rowsAffected'',
                               (case rowsAffected result of [] \<Rightarrow> JUndefined | n # ns \<Rightarrow> JNum n))])"
  using assms
  by (auto simp: procedure_try_def Let_def trace_emit first_affected_def
      split: prod.splits sum.splits option.splits)

text \<open>
  Claim C8.  When the query handler (and likewise the procedure handler) answers with
  status 200, the last event of the trace is the statement it sent, with the driver's
  result, and the \<open>rowsAffected\<close> of the response is the first entry of that result's
  list of affected counts (\<open>undefined\<close> when the list is empty).  Nothing else of the list
  is in the response.
\<close>

theorem rows_affected_is_the_first_count:
  "(query_handler e body s = ((200, b), s') \<longrightarrow>
      (\<exists>evs h ins result.
           trace s' = evs @ [DbQuery (OfPool h) ins (get_prop body ''query'') (Inr result)]
         \<and> b = JObj [(''success'', JBool True), (''data'', recordset_json result),
                     (''rowsAffected'',
                      (case rowsAffected result of [] \<Rightarrow> JUndefined | n # ns \<Rightarrow> JNum n))]))
   \<and> (procedure_handler e body s = ((200, b), s') \<longrightarrow>
      (\<exists>evs h ins result.
           trace s' = evs @ [DbExecute (OfPool h) ins (get_prop body ''procedure'') (Inr result)]
         \<and> b = JObj [(''success'', JBool True), (''data'', recordset_json result),
                     (''outputParameters'', output_parameters result),
                     (''rowsAffected'',
                      (case rowsAffected result of [] \<Rightarrow> JUndefined | n # ns \<Rightarrow> JNum n))]))"
proof (intro conjI impI)
  assume run: "query_handler e body s = ((200, b), s')"
  let ?q = "get_prop body ''query''"
  from run have t: "truthy ?q"
    by (auto simp: query_handler_def Let_def split: if_splits)
  obtain r s1 where tr: "query_try e ?q (get_prop body ''params'') s = (r, s1)"
    by (cases "query_try e ?q (get_prop body ''params'') s")
  show "\<exists>evs h ins result.
           trace s' = evs @ [DbQuery (OfPool h) ins ?q (Inr result)]
         \<and> b = JObj [(''success'', JBool True), (''data'', recordset_json result),
                     (''rowsAffected'',
                      (case rowsAffected result of [] \<Rightarrow> JUndefined | n # ns \<Rightarrow> JNum n))]"
  proof (cases r)
    case (Inl err)
    with run t tr have "fst (fst (handle_failure e ''Query execution error:'' err s1)) = 200"
      by (simp add: query_handler_def Let_def)
    then show ?thesis by (simp add: handle_failure_status)
  next
    case (Inr resp)
    with run t tr have "resp = (200, b)" "s1 = s'"
      by (simp_all add: query_handler_def Let_def)
    with query_try_ok[of e ?q "get_prop body ''params''" s resp s1] tr Inr
    show ?thesis by simp
  qed
next
  assume run: "procedure_handler e body s = ((200, b), s')"
  let ?q = "get_prop body ''procedure''"
  from run have t: "truthy ?q"
    by (auto simp: procedure_handler_def Let_def split: if_splits)
  obtain r s1 where tr: "procedure_try e ?q (get_prop body ''params'') s = (r, s1)"
    by (cases "procedure_try e ?q (get_prop body ''params'') s")
  show "\<exists>evs h ins result.
           trace s' = evs @ [DbExecute (OfPool h) ins ?q (Inr result)]
         \<and> b = JObj [(''success'', JBool True), (''data'', recordset_json result),
                     (''outputParameters'', output_parameters result),
                     (''rowsAffected'',
                      (case rowsAffected result of [] \<Rightarrow> JUndefined | n # ns \<Rightarrow> JNum n))]"
  proof (cases r)
    case (Inl err)
    with run t tr have "fst (fst (handle_failure e ''Procedure execution error:'' err s1)) = 200"
      by (simp add: procedure_handler_def Let_def)
    then show ?thesis by (simp add: handle_failure_status)
  next
    case (Inr resp)
    with run t tr have "resp = (200, b)" "s1 = s'"
      by (simp_all add: procedure_handler_def Let_def)
    with procedure_try_ok[of e ?q "get_prop body ''params''" s resp s1] tr Inr
    show ?thesis by simp
  qed
qed

lemma healthy_query_run:
  "query_handler healthy_env (JObj [(''query'', JStr ''SELECT 1 AS x'')]) live_pool =
     ((200, JObj [(''success'', JBool True), (''data'', JArr [JObj [(''x'', JNum 1)]]),
                  (''rowsAffected'', JNum 1)]),
      \<lparr>pool = Some 1,
        trace = [DbQuery (OfPool 1) [] (JStr ''SELECT 1 AS x'') (Inr one_row)]\<rparr>)"
  by (simp add: query_handler_def query_try_def ensure_pool_initialized_def current_pool_def
      bind_params_def get_prop_def live_pool_def healthy_env_def emit_def one_row_def
      recordset_json_def first_affected_def Let_def)

lemma batch_procedure_run:
  "procedure_handler batch_env (JObj [(''procedure'', JStr ''sp_close_day'')]) live_pool =
     ((200, JObj [(''success'', JBool True), (''data'', JUndefined),
                  (''outputParameters'', JObj [(''total'', JNum 5)]),
                  (''rowsAffected'', JNum 2)]),
      \<lparr>pool = Some 1,
        trace = [DbExecute (OfPool 1) [] (JStr ''sp_close_day'') (Inr batch_result)]\<rparr>)"
  by (simp add: procedure_handler_def procedure_try_def ensure_pool_initialized_def
      current_pool_def bind_params_def get_prop_def live_pool_def batch_env_def healthy_env_def
      emit_def batch_result_def recordset_json_def first_affected_def template_literal_def
      Let_def)

theorem rows_affected_is_the_first_count_witness:
  "query_handler healthy_env (JObj [(''query'', JStr ''SELECT 1 AS x'')]) live_pool =
     ((200, JObj [(''success'', JBool True), (''data'', JArr [JObj [(''x'', JNum 1)]]),
                  (''rowsAffected'', JNum 1)]),
      \<lparr>pool = Some 1,
        trace = [DbQuery (OfPool 1) [] (JStr ''SELECT 1 AS x'') (Inr one_row)]\<rparr>)
   \<and> rowsAffected one_row = [1]
   \<and> procedure_handler batch_env (JObj [(''procedure'', JStr ''sp_close_day'')]) live_pool =
     ((200, JObj [(''success'', JBool True), (''data'', JUndefined),
                  (''outputParameters'', JObj [(''total'', JNum 5)]),
                  (''rowsAffected'', JNum 2)]),
      \<lparr>pool = Some 1,
        trace = [DbExecute (OfPool 1) [] (JStr ''sp_close_day'') (Inr batch_result)]\<rparr>)
   \<and> rowsAffected batch_result = [2, 3]"
  using rows_affected_is_the_first_count
      [of healthy_env "JObj [(''query'', JStr ''SELECT 1 AS x'')]" live_pool]
    rows_affected_is_the_first_count
      [of batch_env "JObj [(''procedure'', JStr ''sp_close_day'')]" live_pool]
    healthy_query_run batch_procedure_run
  by (simp add: one_row_def batch_result_def)


lemma attempts_append: "attempts (xs @ ys) = attempts xs + attempts ys"
  by (simp add: attempts_def schedule_append)

lemma initializePool_once:
  "initializePool e 1 s =
     (case connect_attempt e s of
        (Inr h, s1) \<Rightarrow> (Inr (Some h), s1)
      | (Inl err, s1) \<Rightarrow>
          (Inl err, emit (Console MaxRetriesReached) (emit (Console (AttemptFailed 1 err)) s1)))"
  unfolding initializePool_def
  by (subst initializePool_from.simps) (simp add: Let_def split: prod.splits sum.splits)

lemma initializePool_once_events:
  assumes "initializePool e 1 s = (r, s')"
  shows "\<exists>evs. trace s' = trace s @ evs \<and> attempts evs = 1 \<and> requests evs = []"
proof -
  obtain r1 s1 where ca: "connect_attempt e s = (r1, s1)" by (cases "connect_attempt e s")
  from connect_attempt_events[OF ca] obtain evs1 where
    e1: "trace s1 = trace s @ evs1" "schedule evs1 = [Attempt]" "requests evs1 = []" by blast
  have a1: "attempts evs1 = 1" by (simp add: attempts_def e1)
  show ?thesis
  proof (cases r1)
    case (Inr h)
    with assms[unfolded initializePool_once] ca have "s' = s1"
      by simp
    with e1 a1 show ?thesis by blast
  next
    case (Inl err)
    with assms[unfolded initializePool_once] ca have
      "s' = emit (Console MaxRetriesReached) (emit (Console (AttemptFailed 1 err)) s1)"
      by simp
    then have "trace s' = trace s @ (evs1 @ [Console (AttemptFailed 1 err), Console MaxRetriesReached])"
      by (simp add: trace_emit e1)
    moreover have "attempts (evs1 @ [Console (AttemptFailed 1 err), Console MaxRetriesReached]) = 1"
      by (simp add: attempts_append a1) (simp add: attempts_def)
    moreover have "requests (evs1 @ [Console (AttemptFailed 1 err), Console MaxRetriesReached]) = []"
      by (simp add: requests_append requests_Cons requests_Nil e1)
    ultimately show ?thesis by blast
  qed
qed

lemma reconnect_after_connection_error:
  assumes "connection_issue err s"
  shows "\<exists>evs. trace (reconnect e err s) = trace s @ evs \<and> attempts evs = 1 \<and> requests evs = []"
proof -
  obtain r s1 where ip: "initializePool e 1 s = (r, s1)" by (cases "initializePool e 1 s")
  from initializePool_once_events[OF ip] obtain evs where
    evs: "trace s1 = trace s @ evs" "attempts evs = 1" "requests evs = []" by blast
  show ?thesis
  proof (cases r)
    case (Inr p)
    with assms ip have "reconnect e err s = s1" by (simp add: reconnect_def)
    with evs show ?thesis by auto
  next
    case (Inl rerr)
    with assms ip have "reconnect e err s = emit (Console (ReconnectFailed rerr)) s1"
      by (simp add: reconnect_def)
    then have "trace (reconnect e err s) = trace s @ (evs @ [Console (ReconnectFailed rerr)])"
      by (simp add: trace_emit evs)
    moreover have "attempts (evs @ [Console (ReconnectFailed rerr)]) = 1"
      by (simp add: attempts_append evs) (simp add: attempts_def)
    moreover have "requests (evs @ [Console (ReconnectFailed rerr)]) = []"
      by (simp add: requests_append requests_Cons requests_Nil evs)
    ultimately show ?thesis by blast
  qed
qed

lemma handle_failure_events:
  "fst (handle_failure e label err s) = error_response e err
   \<and> (code err \<in> {Some ''ETIMEOUT'', Some ''ECONNCLOSED'', Some ''ECONNRESET''} \<longrightarrow>
        trace (snd (handle_failure e label err s)) =
          trace s @ new_events s (snd (handle_failure e label err s))
      \<and> attempts (new_events s (snd (handle_failure e label err s))) = 1
      \<and> requests (new_events s (snd (handle_failure e label err s))) = [])
   \<and> (code err \<notin> {Some ''ETIMEOUT'', Some ''ECONNCLOSED'', Some ''ECONNRESET''}
        \<and> pool s \<noteq> None \<longrightarrow>
        snd (handle_failure e label err s) = emit (Console (HandlerError label err)) s)"
proof (intro conjI impI)
  show "fst (handle_failure e label err s) = error_response e err"
    by (simp add: handle_failure_def)
next
  assume c: "code err \<in> {Some ''ETIMEOUT'', Some ''ECONNCLOSED'', Some ''ECONNRESET''}"
  let ?s1 = "emit (Console (HandlerError label err)) s"
  from c have "connection_issue err ?s1" by (auto simp: connection_issue_def)
  from reconnect_after_connection_error[OF this, of e] obtain evs where
    evs: "trace (reconnect e err ?s1) = trace ?s1 @ evs" "attempts evs = 1" "requests evs = []"
    by blast
  have t: "trace (snd (handle_failure e label err s)) = trace s @ (Console (HandlerError label err) # evs)"
    by (simp add: handle_failure_def evs trace_emit)
  then have n: "new_events s (snd (handle_failure e label err s)) = Console (HandlerError label err) # evs"
    by (simp add: new_events_def)
  show "trace (snd (handle_failure e label err s)) =
          trace s @ new_events s (snd (handle_failure e label err s))"
    using t n by simp
  show "attempts (new_events s (snd (handle_failure e label err s))) = 1"
    unfolding n using evs(2) by (simp add: attempts_def)
  show "requests (new_events s (snd (handle_failure e label err s))) = []"
    unfolding n using evs(3) by (simp add: requests_Cons)
next
  assume "code err \<notin> {Some ''ETIMEOUT'', Some ''ECONNCLOSED'', Some ''ECONNRESET''}
        \<and> pool s \<noteq> None"
  then have "\<not> connection_issue err (emit (Console (HandlerError label err)) s)"
    by (auto simp: connection_issue_def pool_emit)
  then show "snd (handle_failure e label err s) = emit (Console (HandlerError label err)) s"
    by (simp add: handle_failure_def reconnect_def)
qed

text \<open>
  Claim C5.  When the \<open>try\<close> block of the query handler fails with \<open>err\<close>, the response
  has status 500 and carries the message and the code of \<open>err\<close> itself (and its stack in
  development), whatever the reconnect does.  If the code of \<open>err\<close> is \<open>ETIMEOUT\<close>,
  \<open>ECONNCLOSED\<close> or \<open>ECONNRESET\<close>, the handler then runs \<open>initializePool(1)\<close> once and only
  logs its failure; what follows the failure in the trace holds exactly one connection
  attempt and no statement, procedure call or bulk write other than the validation query of
  the reconnect: the request is not sent again.  If the code is another one and a pool is
  set, as it is whenever a statement was sent, nothing follows but the log line: there is
  no reconnect.
\<close>

theorem failed_query_reconnects_once:
  assumes "truthy (get_prop body ''query'')"
    and "query_try e (get_prop body ''query'') (get_prop body ''params'') s = (Inl err, s1)"
  shows "fst (query_handler e body s) =
           (500, JObj [(''success'', JBool False),
                       (''error'', JStr (message err)),
                       (''errorCode'', (case code err of None \<Rightarrow> JUndefined | Some c \<Rightarrow> JStr c)),
                       (''stack'', (if node_env e = Some ''development''
                                    then JStr (stack err) else JUndefined))])
   \<and> (code err \<in> {Some ''ETIMEOUT'', Some ''ECONNCLOSED'', Some ''ECONNRESET''} \<longrightarrow>
        trace (snd (query_handler e body s)) =
          trace s1 @ new_events s1 (snd (query_handler e body s))
      \<and> attempts (new_events s1 (snd (query_handler e body s))) = 1
      \<and> requests (new_events s1 (snd (query_handler e body s))) = []
      \<and> snd (query_handler e body s) =
          (case initializePool e 1 (emit (Console (HandlerError ''Query execution error:'' err)) s1) of
             (Inl reconnectErr, s2) \<Rightarrow> emit (Console (ReconnectFailed reconnectErr)) s2
           | (Inr p, s2) \<Rightarrow> s2))
   \<and> (code err \<notin> {Some ''ETIMEOUT'', Some ''ECONNCLOSED'', Some ''ECONNRESET''}
        \<and> pool s1 \<noteq> None \<longrightarrow>
        snd (query_handler e body s) =
          emit (Console (HandlerError ''Query execution error:'' err)) s1)"
proof -
  from assms have h: "query_handler e body s = handle_failure e ''Query execution error:'' err s1"
    by (simp add: query_handler_def Let_def)
  note E = handle_failure_events[of e "''Query execution error:''" err s1]
  have r: "fst (query_handler e body s) =
           (500, JObj [(''success'', JBool False),
                       (''error'', JStr (message err)),
                       (''errorCode'', (case code err of None \<Rightarrow> JUndefined | Some c \<Rightarrow> JStr c)),
                       (''stack'', (if node_env e = Some ''development''
                                    then JStr (stack err) else JUndefined))])"
    by (simp add: h handle_failure_def error_response_def)
  have sw: "code err \<in> {Some ''ETIMEOUT'', Some ''ECONNCLOSED'', Some ''ECONNRESET''} \<longrightarrow>
      snd (query_handler e body s) =
          (case initializePool e 1 (emit (Console (HandlerError ''Query execution error:'' err)) s1) of
             (Inl reconnectErr, s2) \<Rightarrow> emit (Console (ReconnectFailed reconnectErr)) s2
           | (Inr p, s2) \<Rightarrow> s2)"
  proof
    assume "code err \<in> {Some ''ETIMEOUT'', Some ''ECONNCLOSED'', Some ''ECONNRESET''}"
    then have "connection_issue err (emit (Console (HandlerError ''Query execution error:'' err)) s1)"
      by (auto simp: connection_issue_def)
    then show "snd (query_handler e body s) =
          (case initializePool e 1 (emit (Console (HandlerError ''Query execution error:'' err)) s1) of
             (Inl reconnectErr, s2) \<Rightarrow> emit (Console (ReconnectFailed reconnectErr)) s2
           | (Inr p, s2) \<Rightarrow> s2)"
      by (simp add: h handle_failure_def reconnect_def)
  qed
  from E r sw show ?thesis unfolding h by blast
qed

lemma failing_try:
  "query_try (failing_env err) (JStr ''SELECT 1 AS x'') JUndefined live_pool =
     (Inl err, \<lparr>pool = Some 1,
                 trace = [DbQuery (OfPool 1) [] (JStr ''SELECT 1 AS x'') (Inl err)]\<rparr>)"
  by (simp add: query_try_def ensure_pool_initialized_def current_pool_def bind_params_def
      live_pool_def failing_env_def healthy_env_def emit_def Let_def)

lemma failing_reconnect:
  "initializePool (failing_env err) 1 \<lparr>pool = Some 1, trace = t\<rparr> =
     (Inl refused,
      \<lparr>pool = Some 1,
        trace = t @ [DbClose 1 None, DbConnect (Inl refused),
                     Console (AttemptFailed 1 refused), Console MaxRetriesReached]\<rparr>)"
  unfolding initializePool_once
  by (simp add: connect_attempt_def close_existing_def failing_env_def healthy_env_def
      emit_def Let_def)

theorem failed_query_reconnects_once_witness:
  "truthy (get_prop (JObj [(''query'', JStr ''SELECT 1 AS x'')]) ''query'')
   \<and> query_handler (failing_env timed_out) (JObj [(''query'', JStr ''SELECT 1 AS x'')]) live_pool =
       ((500, JObj [(''success'', JBool False),
                    (''error'', JStr ''Timeout: Request failed to complete in 30000ms''),
                    (''errorCode'', JStr ''ETIMEOUT''),
                    (''stack'', JUndefined)]),
        \<lparr>pool = Some 1,
          trace = [DbQuery (OfPool 1) [] (JStr ''SELECT 1 AS x'') (Inl timed_out),
                   Console (HandlerError ''Query execution error:'' timed_out),
                   DbClose 1 None, DbConnect (Inl refused),
                   Console (AttemptFailed 1 refused), Console MaxRetriesReached,
                   Console (ReconnectFailed refused)]\<rparr>)
   \<and> attempts (new_events
         \<lparr>pool = Some 1,
           trace = [DbQuery (OfPool 1) [] (JStr ''SELECT 1 AS x'') (Inl timed_out)]\<rparr>
         (snd (query_handler (failing_env timed_out)
                 (JObj [(''query'', JStr ''SELECT 1 AS x'')]) live_pool))) = 1
   \<and> requests (new_events
         \<lparr>pool = Some 1,
           trace = [DbQuery (OfPool 1) [] (JStr ''SELECT 1 AS x'') (Inl timed_out)]\<rparr>
         (snd (query_handler (failing_env timed_out)
                 (JObj [(''query'', JStr ''SELECT 1 AS x'')]) live_pool))) = []
   \<and> query_handler (failing_env bad_syntax) (JObj [(''query'', JStr ''SELECT 1 AS x'')]) live_pool =
       ((500, JObj [(''success'', JBool False),
                    (''error'', JStr ''Incorrect syntax near FORM.''),
                    (''errorCode'', JStr ''EREQUEST''),
                    (''stack'', JUndefined)]),
        \<lparr>pool = Some 1,
          trace = [DbQuery (OfPool 1) [] (JStr ''SELECT 1 AS x'') (Inl bad_syntax),
                   Console (HandlerError ''Query execution error:'' bad_syntax)]\<rparr>)"
proof -
  let ?body = "JObj [(''query'', JStr ''SELECT 1 AS x'')]"
  let ?s1 = "\<lambda>err. \<lparr>pool = Some (1::nat),
        trace = [DbQuery (OfPool 1) [] (JStr ''SELECT 1 AS x'') (Inl err)]\<rparr>"
  have q: "get_prop ?body ''query'' = JStr ''SELECT 1 AS x''"
    and p: "get_prop ?body ''params'' = JUndefined"
    by (simp_all add: get_prop_def)
  have t: "truthy (get_prop ?body ''query'')" by (simp add: q)
  have c1: "code timed_out \<in> {Some ''ETIMEOUT'', Some ''ECONNCLOSED'', Some ''ECONNRESET''}"
    by (simp add: timed_out_def)
  have c2: "code bad_syntax \<notin> {Some ''ETIMEOUT'', Some ''ECONNCLOSED'', Some ''ECONNRESET''}"
    by (simp add: bad_syntax_def)
  have try1: "query_try (failing_env timed_out) (get_prop ?body ''query'')
      (get_prop ?body ''params'') live_pool = (Inl timed_out, ?s1 timed_out)"
    unfolding q p by (rule failing_try)
  have try2: "query_try (failing_env bad_syntax) (get_prop ?body ''query'')
      (get_prop ?body ''params'') live_pool = (Inl bad_syntax, ?s1 bad_syntax)"
    unfolding q p by (rule failing_try)
  note A = failed_query_reconnects_once[OF t try1]
  note B = failed_query_reconnects_once[OF t try2]
  have env: "node_env (failing_env timed_out) = Some ''production''"
    "node_env (failing_env bad_syntax) = Some ''production''"
    by (simp_all add: failing_env_def healthy_env_def)
  from A have "fst (query_handler (failing_env timed_out) ?body live_pool) =
       (500, JObj [(''success'', JBool False),
                    (''error'', JStr (message timed_out)),
                    (''errorCode'', (case code timed_out of None \<Rightarrow> JUndefined | Some c \<Rightarrow> JStr c)),
                    (''stack'', (if node_env (failing_env timed_out) = Some ''development''
                                 then JStr (stack timed_out) else JUndefined))])"
    by blast
  then have ra: "fst (query_handler (failing_env timed_out) ?body live_pool) =
       (500, JObj [(''success'', JBool False),
                    (''error'', JStr ''Timeout: Request failed to complete in 30000ms''),
                    (''errorCode'', JStr ''ETIMEOUT''),
                    (''stack'', JUndefined)])"
    by (simp add: env) (simp add: timed_out_def)
  from B have "fst (query_handler (failing_env bad_syntax) ?body live_pool) =
       (500, JObj [(''success'', JBool False),
                    (''error'', JStr (message bad_syntax)),
                    (''errorCode'', (case code bad_syntax of None \<Rightarrow> JUndefined | Some c \<Rightarrow> JStr c)),
                    (''stack'', (if node_env (failing_env bad_syntax) = Some ''development''
                                 then JStr (stack bad_syntax) else JUndefined))])"
    by blast
  then have rb: "fst (query_handler (failing_env bad_syntax) ?body live_pool) =
       (500, JObj [(''success'', JBool False),
                    (''error'', JStr ''Incorrect syntax near FORM.''),
                    (''errorCode'', JStr ''EREQUEST''),
                    (''stack'', JUndefined)])"
    by (simp add: env) (simp add: bad_syntax_def)
  from A c1 have "snd (query_handler (failing_env timed_out) ?body live_pool) =
      (case initializePool (failing_env timed_out) 1
              (emit (Console (HandlerError ''Query execution error:'' timed_out)) (?s1 timed_out)) of
         (Inl reconnectErr, s2) \<Rightarrow> emit (Console (ReconnectFailed reconnectErr)) s2
       | (Inr p, s2) \<Rightarrow> s2)"
    by blast
  then have sa: "snd (query_handler (failing_env timed_out) ?body live_pool) =
        \<lparr>pool = Some 1,
          trace = [DbQuery (OfPool 1) [] (JStr ''SELECT 1 AS x'') (Inl timed_out),
                   Console (HandlerError ''Query execution error:'' timed_out),
                   DbClose 1 None, DbConnect (Inl refused),
                   Console (AttemptFailed 1 refused), Console MaxRetriesReached,
                   Console (ReconnectFailed refused)]\<rparr>"
    by (simp add: emit_def failing_reconnect[unfolded One_nat_def])
  have p2: "pool (?s1 bad_syntax) \<noteq> None" by simp
  from B c2 p2 have
    "snd (query_handler (failing_env bad_syntax) ?body live_pool) =
       emit (Console (HandlerError ''Query execution error:'' bad_syntax)) (?s1 bad_syntax)"
    by blast
  then have sb: "snd (query_handler (failing_env bad_syntax) ?body live_pool) =
       \<lparr>pool = Some 1,
          trace = [DbQuery (OfPool 1) [] (JStr ''SELECT 1 AS x'') (Inl bad_syntax),
                   Console (HandlerError ''Query execution error:'' bad_syntax)]\<rparr>"
    by (simp add: emit_def)
  from ra sa have fa: "query_handler (failing_env timed_out) ?body live_pool =
       ((500, JObj [(''success'', JBool False),
                    (''error'', JStr ''Timeout: Request failed to complete in 30000ms''),
                    (''errorCode'', JStr ''ETIMEOUT''),
                    (''stack'', JUndefined)]),
        \<lparr>pool = Some 1,
          trace = [DbQuery (OfPool 1) [] (JStr ''SELECT 1 AS x'') (Inl timed_out),
                   Console (HandlerError ''Query execution error:'' timed_out),
                   DbClose 1 None, DbConnect (Inl refused),
                   Console (AttemptFailed 1 refused), Console MaxRetriesReached,
                   Console (ReconnectFailed refused)]\<rparr>)"
    by (metis prod.collapse)
  from rb sb have fb: "query_handler (failing_env bad_syntax) ?body live_pool =
       ((500, JObj [(''success'', JBool False),
                    (''error'', JStr ''Incorrect syntax near FORM.''),
                    (''errorCode'', JStr ''EREQUEST''),
                    (''stack'', JUndefined)]),
        \<lparr>pool = Some 1,
          trace = [DbQuery (OfPool 1) [] (JStr ''SELECT 1 AS x'') (Inl bad_syntax),
                   Console (HandlerError ''Query execution error:'' bad_syntax)]\<rparr>)"
    by (metis prod.collapse)
  from A c1 have "attempts (new_events (?s1 timed_out)
         (snd (query_handler (failing_env timed_out) ?body live_pool))) = 1"
    and "requests (new_events (?s1 timed_out)
         (snd (query_handler (failing_env timed_out) ?body live_pool))) = []"
    by blast+
  with t fa fb show ?thesis by blast
qed

text \<open>The procedure handler has the same \<open>catch\<close> block.\<close>

lemma failed_procedure_reconnects_once:
  assumes "truthy (get_prop body ''procedure'')"
    and "procedure_try e (get_prop body ''procedure'') (get_prop body ''params'') s = (Inl err, s1)"
  shows "fst (procedure_handler e body s) = error_response e err
   \<and> (code err \<in> {Some ''ETIMEOUT'', Some ''ECONNCLOSED'', Some ''ECONNRESET''} \<longrightarrow>
        trace (snd (procedure_handler e body s)) =
          trace s1 @ new_events s1 (snd (procedure_handler e body s))
      \<and> attempts (new_events s1 (snd (procedure_handler e body s))) = 1
      \<and> requests (new_events s1 (snd (procedure_handler e body s))) = [])
   \<and> (code err \<notin> {Some ''ETIMEOUT'', Some ''ECONNCLOSED'', Some ''ECONNRESET''}
        \<and> pool s1 \<noteq> None \<longrightarrow>
        snd (procedure_handler e body s) =
          emit (Console (HandlerError ''Procedure execution error:'' err)) s1)"
proof -
  from assms have
    "procedure_handler e body s = handle_failure e ''Procedure execution error:'' err s1"
    by (simp add: procedure_handler_def Let_def)
  then show ?thesis
    using handle_failure_events[of e "''Procedure execution error:''" err s1] by simp
qed

section \<open>Events of the pool guard and of a reconnect\<close>

lemma close_existing_pool_events:
  "\<exists>evs. trace (close_existing e s) = trace s @ evs \<and> list_all pool_event evs"
  by (auto simp: close_existing_def Let_def trace_emit split: option.splits)

lemma close_existing_pool: "pool (close_existing e s) = pool s"
  by (auto simp: close_existing_def Let_def pool_emit split: option.splits)

lemma connect_attempt_pool_events:
  assumes "connect_attempt e s = (r, s')"
  shows "\<exists>evs. trace s' = trace s @ evs \<and> list_all pool_event evs"
proof -
  obtain evs0 where c: "trace (close_existing e s) = trace s @ evs0" "list_all pool_event evs0"
    using close_existing_pool_events by blast
  show ?thesis using assms c
    by (auto simp: connect_attempt_def Let_def trace_emit split: sum.splits)
qed

lemma connect_attempt_keeps_pool:
  "connect_attempt e s = (r, s') \<Longrightarrow> pool s \<noteq> None \<Longrightarrow> pool s' \<noteq> None"
  by (auto simp: connect_attempt_def Let_def pool_emit close_existing_pool split: sum.splits)

lemma initializePool_from_pool_events:
  "initializePool_from e n a s = (r, s') \<Longrightarrow>
   \<exists>evs. trace s' = trace s @ evs \<and> list_all pool_event evs
        \<and> (pool s \<noteq> None \<longrightarrow> pool s' \<noteq> None)
        \<and> (a \<le> n \<longrightarrow> r \<noteq> Inr None)
        \<and> (\<forall>h. r = Inr (Some h) \<longrightarrow> pool s' = Some h)"
proof (induction "Suc n - a" arbitrary: a s)
  case 0
  then have "\<not> a \<le> n" by simp
  with "0.prems" have "r = Inr None" "s' = s"
    by (subst (asm) initializePool_from.simps; simp)+
  with \<open>\<not> a \<le> n\<close> show ?case by simp
next
  case (Suc d)
  then have le: "a \<le> n" by simp
  obtain r1 s1 where ca: "connect_attempt e s = (r1, s1)" by (cases "connect_attempt e s")
  from connect_attempt_pool_events[OF ca] obtain evs1 where
    e1: "trace s1 = trace s @ evs1" "list_all pool_event evs1" by blast
  note kp = connect_attempt_keeps_pool[OF ca]
  show ?case
  proof (cases r1)
    case (Inr h)
    with Suc.prems ca le have "r = Inr (Some h)" "s' = s1"
      by (subst (asm) initializePool_from.simps; simp)+
    moreover from ca Inr have "pool s1 = Some h" by (simp add: connect_attempt_ok_pool)
    ultimately show ?thesis using e1 by auto
  next
    case (Inl err)
    show ?thesis
    proof (cases "a < n")
      case False
      with Suc.prems ca le Inl have "r = Inl err"
        "s' = emit (Console MaxRetriesReached) (emit (Console (AttemptFailed a err)) s1)"
        by (subst (asm) initializePool_from.simps; simp add: Let_def)+
      then show ?thesis using e1 kp by (auto simp: trace_emit pool_emit)
    next
      case True
      let ?s2 = "emit (Sleep (2000 * a)) (emit (Console (AttemptFailed a err)) s1)"
      from Suc.prems ca le Inl True have rec: "initializePool_from e n (a + 1) ?s2 = (r, s')"
        by (subst (asm) initializePool_from.simps) (simp add: Let_def)
      have d: "d = Suc n - (a + 1)" using Suc.hyps(2) by simp
      from Suc.hyps(1)[OF d rec] obtain evs2 where
        e2: "trace s' = trace ?s2 @ evs2" "list_all pool_event evs2"
            "pool ?s2 \<noteq> None \<longrightarrow> pool s' \<noteq> None"
            "a + 1 \<le> n \<longrightarrow> r \<noteq> Inr None"
            "\<forall>h. r = Inr (Some h) \<longrightarrow> pool s' = Some h" by blast
      have "trace s' = trace s @ (evs1 @ [Console (AttemptFailed a err), Sleep (2000 * a)] @ evs2)"
        by (simp add: e2 trace_emit e1)
      moreover have "list_all pool_event (evs1 @ [Console (AttemptFailed a err), Sleep (2000 * a)] @ evs2)"
        using e1 e2 by simp
      moreover have "pool s \<noteq> None \<longrightarrow> pool s' \<noteq> None"
        using kp e2(3) by (simp add: pool_emit)
      moreover have "a \<le> n \<longrightarrow> r \<noteq> Inr None" using e2(4) True by simp
      ultimately show ?thesis using e2(5) by blast
    qed
  qed
qed

lemma ensure_pool_events:
  assumes "ensure_pool_initialized e s = (r, s')"
  shows "\<exists>evs. trace s' = trace s @ evs \<and> list_all pool_event evs
             \<and> (r = Inr () \<longrightarrow> pool s' \<noteq> None)"
proof (cases "pool s")
  case (Some h)
  with assms show ?thesis by (auto simp: ensure_pool_initialized_def)
next
  case None
  obtain r1 s1 where ip: "initializePool_from e 5 1 s = (r1, s1)"
    by (cases "initializePool_from e 5 1 s")
  from initializePool_from_pool_events[OF ip] obtain evs where
    evs: "trace s1 = trace s @ evs" "list_all pool_event evs" "r1 \<noteq> Inr None"
         "\<forall>h. r1 = Inr (Some h) \<longrightarrow> pool s1 = Some h" by auto
  from assms None ip have s': "s' = s1" and r: "r = (case r1 of Inl err \<Rightarrow> Inl err | Inr p \<Rightarrow> Inr ())"
    by (auto simp: ensure_pool_initialized_def initializePool_def split: sum.splits)
  have "r = Inr () \<longrightarrow> pool s' \<noteq> None"
  proof
    assume "r = Inr ()"
    with r obtain p where "r1 = Inr p" by (cases r1) auto
    with evs(3) obtain h where "r1 = Inr (Some h)" by (cases p) auto
    with evs(4) s' show "pool s' \<noteq> None" by simp
  qed
  with evs s' show ?thesis by blast
qed

lemma ensure_pool_sets_pool:
  "ensure_pool_initialized e s = (Inr u, s') \<Longrightarrow> \<exists>h. current_pool s' = Inr h \<and> pool s' = Some h"
  using ensure_pool_events[of e s "Inr u" s'] by (cases "pool s'") (auto simp: current_pool_def)

lemma reconnect_pool_events:
  "\<exists>evs. trace (reconnect e err s) = trace s @ evs \<and> list_all pool_event evs"
proof (cases "connection_issue err s")
  case False
  then show ?thesis by (simp add: reconnect_def)
next
  case True
  obtain r s1 where ip: "initializePool_from e 1 1 s = (r, s1)"
    by (cases "initializePool_from e 1 1 s")
  from initializePool_from_pool_events[OF ip] obtain evs where
    evs: "trace s1 = trace s @ evs" "list_all pool_event evs" by auto
  from True ip have "reconnect e err s = s1
      \<or> (\<exists>rerr. reconnect e err s = emit (Console (ReconnectFailed rerr)) s1)"
    by (auto simp: reconnect_def initializePool_def split: sum.splits)
  then show ?thesis
  proof
    assume "reconnect e err s = s1"
    with evs show ?thesis by auto
  next
    assume "\<exists>rerr. reconnect e err s = emit (Console (ReconnectFailed rerr)) s1"
    then obtain rerr where "reconnect e err s = emit (Console (ReconnectFailed rerr)) s1" by blast
    then have "trace (reconnect e err s) = trace s @ (evs @ [Console (ReconnectFailed rerr)])"
      by (simp add: trace_emit evs)
    moreover have "list_all pool_event (evs @ [Console (ReconnectFailed rerr)])"
      using evs by simp
    ultimately show ?thesis by blast
  qed
qed

lemma pool_events_no_tx: "list_all pool_event evs \<Longrightarrow> tx_statements evs = []"
  by (induction evs rule: tx_statements.induct) auto

lemma pool_events_no_commit: "list_all pool_event evs \<Longrightarrow> commits evs = []"
  by (induction evs rule: commits.induct) auto

lemma pool_events_no_bulk: "list_all pool_event evs \<Longrightarrow> bulk_tables evs = []"
  by (induction evs rule: bulk_tables.induct) auto

lemma tx_statements_append: "tx_statements (xs @ ys) = tx_statements xs @ tx_statements ys"
  by (induction xs rule: tx_statements.induct) auto

lemma commits_append: "commits (xs @ ys) = commits xs @ commits ys"
  by (induction xs rule: commits.induct) auto

lemma bulk_tables_append: "bulk_tables (xs @ ys) = bulk_tables xs @ bulk_tables ys"
  by (induction xs rule: bulk_tables.induct) auto


section \<open>The pool guard and initializePool on a live pool\<close>

lemma close_existing_live:
  assumes "pool s = Some h"
  shows "trace (close_existing e s) =
           trace s @ DbClose h (pool_close e (trace s) h)
             # (case pool_close e (trace s) h of
                  None \<Rightarrow> []
                | Some closeErr \<Rightarrow> [Console (CloseFailed closeErr)])"
  using assms
  by (cases "pool_close e (trace s) h") (simp_all add: close_existing_def Let_def trace_emit)

lemma connect_attempt_first_events:
  "\<exists>evs. trace (snd (connect_attempt e s)) =
     trace (close_existing e s) @ DbConnect (sql_connect e (trace (close_existing e s))) # evs"
  by (auto simp: connect_attempt_def Let_def trace_emit split: sum.splits)

lemma initializePool_first_attempt:
  assumes "0 < n"
  shows "\<exists>evs. trace (snd (initializePool e n s)) = trace (snd (connect_attempt e s)) @ evs"
proof -
  obtain r1 s1 where ca: "connect_attempt e s = (r1, s1)" by (cases "connect_attempt e s")
  from assms have le: "1 \<le> n" by simp
  show ?thesis
  proof (cases r1)
    case (Inr h')
    with ca le have "initializePool_from e n 1 s = (Inr (Some h'), s1)"
      by (subst initializePool_from.simps) simp
    with ca show ?thesis by (simp add: initializePool_def)
  next
    case (Inl err)
    show ?thesis
    proof (cases "1 < n")
      case False
      with ca le Inl have "initializePool_from e n 1 s =
          (Inl err, emit (Console MaxRetriesReached) (emit (Console (AttemptFailed 1 err)) s1))"
        by (subst initializePool_from.simps) (simp add: Let_def)
      with ca show ?thesis by (simp add: initializePool_def trace_emit)
    next
      case True
      let ?s2 = "emit (Sleep (2000 * 1)) (emit (Console (AttemptFailed 1 err)) s1)"
      obtain r3 s3 where rec: "initializePool_from e n (1 + 1) ?s2 = (r3, s3)"
        by (cases "initializePool_from e n (1 + 1) ?s2")
      from initializePool_from_pool_events[OF rec] obtain evs where
        evs: "trace s3 = trace ?s2 @ evs" by blast
      from ca le Inl True rec have "initializePool_from e n 1 s = (r3, s3)"
        by (subst initializePool_from.simps) (simp add: Let_def)
      with ca evs show ?thesis by (simp add: initializePool_def trace_emit)
    qed
  qed
qed

text \<open>
  Claim C2, as amended.  When the variable \<open>pool\<close> holds a pool, the guard the handlers run
  before they use it (\<open>if (!pool) await initializePool()\<close>) does nothing: it succeeds at
  once and leaves the pool and the trace as they were, so that the query handler's first
  and only event is its statement, sent on the pool that was there.  \<open>initializePool\<close>
  itself, called with at least one attempt while a pool is held (as the \<open>catch\<close> blocks and
  the health handler call it to reconnect), is not idempotent: it first closes that pool,
  logging a failure of the close, and then opens a new connection.
\<close>

theorem guard_keeps_the_pool_initializePool_replaces_it:
  assumes "pool s = Some h" and "0 < n"
  shows "ensure_pool_initialized e s = (Inr (), s)
       \<and> current_pool (snd (ensure_pool_initialized e s)) = Inr h
       \<and> trace (snd (query_try e q ps s)) =
           trace s @ (case bind_params e ps of
                        Inl err \<Rightarrow> []
                      | Inr ins \<Rightarrow>
                          [DbQuery (OfPool h) ins q (request_query e (trace s) (OfPool h) ins q)])
       \<and> (\<exists>evs. trace (snd (initializePool e n s)) =
             trace s @ DbClose h (pool_close e (trace s) h)
               # (case pool_close e (trace s) h of
                    None \<Rightarrow> []
                  | Some closeErr \<Rightarrow> [Console (CloseFailed closeErr)])
               @ DbConnect
                   (sql_connect e
                      (trace s @ DbClose h (pool_close e (trace s) h)
                         # (case pool_close e (trace s) h of
                              None \<Rightarrow> []
                            | Some closeErr \<Rightarrow> [Console (CloseFailed closeErr)])))
               # evs)"
proof (intro conjI)
  show g: "ensure_pool_initialized e s = (Inr (), s)"
    using assms(1) by (simp add: ensure_pool_initialized_def)
  show "current_pool (snd (ensure_pool_initialized e s)) = Inr h"
    using assms(1) by (simp add: g current_pool_def)
  show "trace (snd (query_try e q ps s)) =
           trace s @ (case bind_params e ps of
                        Inl err \<Rightarrow> []
                      | Inr ins \<Rightarrow>
                          [DbQuery (OfPool h) ins q (request_query e (trace s) (OfPool h) ins q)])"
    using assms(1)
    by (simp add: query_try_def g current_pool_def Let_def trace_emit split: sum.splits)
  let ?t1 = "trace s @ DbClose h (pool_close e (trace s) h)
               # (case pool_close e (trace s) h of
                    None \<Rightarrow> []
                  | Some closeErr \<Rightarrow> [Console (CloseFailed closeErr)])"
  from connect_attempt_first_events[of e s] obtain evs1 where
    "trace (snd (connect_attempt e s)) =
       trace (close_existing e s) @ DbConnect (sql_connect e (trace (close_existing e s))) # evs1"
    by blast
  then have c: "trace (snd (connect_attempt e s)) = ?t1 @ DbConnect (sql_connect e ?t1) # evs1"
    by (simp only: close_existing_live[OF assms(1)])
  from initializePool_first_attempt[OF assms(2), of e s] obtain evs2 where
    "trace (snd (initializePool e n s)) = trace (snd (connect_attempt e s)) @ evs2" by blast
  with c have "trace (snd (initializePool e n s)) = ?t1 @ DbConnect (sql_connect e ?t1) # (evs1 @ evs2)"
    by simp
  then show "\<exists>evs. trace (snd (initializePool e n s)) =
             trace s @ DbClose h (pool_close e (trace s) h)
               # (case pool_close e (trace s) h of
                    None \<Rightarrow> []
                  | Some closeErr \<Rightarrow> [Console (CloseFailed closeErr)])
               @ DbConnect (sql_connect e ?t1) # evs"
    by (intro exI[of _ "evs1 @ evs2"]) simp
qed

lemma live_reconnect_run:
  "initializePool healthy_env 1 live_pool =
     (Inr (Some 1),
      \<lparr>pool = Some 1,
        trace = [DbClose 1 None, DbConnect (Inr 1),
                 DbQuery (OfPool 1) [] (JStr ''SELECT @@VERSION AS version'') (Inr one_row)]\<rparr>)"
  unfolding initializePool_once
  by (simp add: connect_attempt_def close_existing_def read_version_def version_query_def
      live_pool_def healthy_env_def object_prototype_def one_row_def emit_def Let_def)

theorem guard_keeps_the_pool_initializePool_replaces_it_witness:
  "pool live_pool = Some 1
   \<and> (0::nat) < 1
   \<and> ensure_pool_initialized healthy_env live_pool = (Inr (), live_pool)
   \<and> current_pool (snd (ensure_pool_initialized healthy_env live_pool)) = Inr 1
   \<and> trace (snd (query_try healthy_env (JStr ''SELECT 1 AS x'') JUndefined live_pool)) =
        [DbQuery (OfPool 1) [] (JStr ''SELECT 1 AS x'') (Inr one_row)]
   \<and> (\<exists>evs. trace (snd (initializePool healthy_env 1 live_pool)) =
              DbClose 1 None # DbConnect (Inr 1) # evs)"
proof -
  have p: "pool live_pool = Some 1" by (simp add: live_pool_def)
  have n: "(0::nat) < 1" by simp
  note T = guard_keeps_the_pool_initializePool_replaces_it[OF p n,
      of healthy_env "JStr ''SELECT 1 AS x''" JUndefined]
  have t: "trace live_pool = []" by (simp add: live_pool_def)
  have c: "pool_close healthy_env [] 1 = None"
    "sql_connect healthy_env [DbClose 1 None] = Inr 1"
    "bind_params healthy_env JUndefined = Inr []"
    "request_query healthy_env [] (OfPool 1) [] (JStr ''SELECT 1 AS x'') = Inr one_row"
    by (simp_all add: healthy_env_def bind_params_def)
  from T have "trace (snd (query_try healthy_env (JStr ''SELECT 1 AS x'') JUndefined live_pool)) =
           trace live_pool @ (case bind_params healthy_env JUndefined of
                        Inl err \<Rightarrow> []
                      | Inr ins \<Rightarrow>
                          [DbQuery (OfPool 1) ins (JStr ''SELECT 1 AS x'')
                             (request_query healthy_env (trace live_pool) (OfPool 1) ins
                                (JStr ''SELECT 1 AS x''))])"
    by blast
  then have q: "trace (snd (query_try healthy_env (JStr ''SELECT 1 AS x'') JUndefined live_pool)) =
        [DbQuery (OfPool 1) [] (JStr ''SELECT 1 AS x'') (Inr one_row)]"
    by (simp add: t c[unfolded One_nat_def])
  from T have "\<exists>evs. trace (snd (initializePool healthy_env 1 live_pool)) =
             trace live_pool @ DbClose 1 (pool_close healthy_env (trace live_pool) 1)
               # (case pool_close healthy_env (trace live_pool) 1 of
                    None \<Rightarrow> []
                  | Some closeErr \<Rightarrow> [Console (CloseFailed closeErr)])
               @ DbConnect
                   (sql_connect healthy_env
                      (trace live_pool @ DbClose 1 (pool_close healthy_env (trace live_pool) 1)
                         # (case pool_close healthy_env (trace live_pool) 1 of
                              None \<Rightarrow> []
                            | Some closeErr \<Rightarrow> [Console (CloseFailed closeErr)])))
               # evs"
    by blast
  then have r: "\<exists>evs. trace (snd (initializePool healthy_env 1 live_pool)) =
              DbClose 1 None # DbConnect (Inr 1) # evs"
    by (simp add: t c[unfolded One_nat_def])
  from T have g: "ensure_pool_initialized healthy_env live_pool = (Inr (), live_pool)"
    and cp: "current_pool (snd (ensure_pool_initialized healthy_env live_pool)) = Inr 1"
    by blast+
  from p n g cp q r show ?thesis by blast
qed

text \<open>
  Claim C2 as it is stated fails for \<open>initializePool\<close>: called while the pool \<open>1\<close> is held,
  on a server that answers, it closes the pool, opens a new connection and validates it.
\<close>

theorem initializePool_reopens_a_live_pool:
  "pool live_pool = Some 1
   \<and> initializePool healthy_env 1 live_pool =
     (Inr (Some 1),
      \<lparr>pool = Some 1,
        trace = [DbClose 1 None, DbConnect (Inr 1),
                 DbQuery (OfPool 1) [] (JStr ''SELECT @@VERSION AS version'') (Inr one_row)]\<rparr>)
   \<and> new_events live_pool (snd (initializePool healthy_env 1 live_pool)) \<noteq> []"
proof -
  have "new_events live_pool (snd (initializePool healthy_env 1 live_pool)) \<noteq> []"
    unfolding live_reconnect_run by (simp add: new_events_def live_pool_def)
  with live_reconnect_run show ?thesis by (simp add: live_pool_def)
qed

section \<open>Bulk insert\<close>

lemma member_object:
  "member e (JObj kvs) c =
     Inr (case map_of kvs c of
            Some x \<Rightarrow> x
          | None \<Rightarrow> (case inherited e KObject c of Some x \<Rightarrow> x | None \<Rightarrow> JUndefined))"
  by (simp split: option.splits)

lemma row_values_Inr:
  "row_values e item cols = Inr vs \<Longrightarrow> map Inr vs = map (member e item) cols"
  by (induction cols arbitrary: vs) (auto split: sum.splits)

lemma row_values_object:
  "is_object item \<Longrightarrow> \<exists>vs. row_values e item cols = Inr vs"
proof (induction cols)
  case Nil
  then show ?case by simp
next
  case (Cons c cols)
  then obtain vs kvs where "row_values e item cols = Inr vs" "item = JObj kvs"
    by (cases item) auto
  then show ?case by (simp add: member_object del: member.simps)
qed

lemma add_rows_Inr:
  "add_rows e cols items = Inr rs \<Longrightarrow>
     map (map Inr) rs = map (\<lambda>item. map (member e item) cols) items"
  by (induction items arbitrary: rs) (auto split: sum.splits dest: row_values_Inr)

lemma add_rows_objects:
  "list_all is_object items \<Longrightarrow> \<exists>rs. add_rows e cols items = Inr rs"
proof (induction items)
  case Nil
  then show ?case by simp
next
  case (Cons item items)
  then obtain rs where "add_rows e cols items = Inr rs" by auto
  moreover from Cons.prems obtain vs where "row_values e item cols = Inr vs"
    using row_values_object[of item e cols] by auto
  ultimately show ?case by simp
qed

lemma own_key_order_plain:
  "list_all (\<lambda>k. \<not> is_array_index k) ks \<Longrightarrow> own_key_order ks = ks"
proof -
  assume a: "list_all (\<lambda>k. \<not> is_array_index k) ks"
  then have "filter is_array_index ks = []"
    by (induction ks) auto
  moreover from a have "filter (\<lambda>k. \<not> is_array_index k) ks = ks"
    by (induction ks) auto
  ultimately show ?thesis by (simp add: own_key_order_def)
qed

lemma key_a: "\<not> is_array_index ''a''"
  by (simp add: is_array_index_def array_index_def is_digit_def)

lemma key_b: "\<not> is_array_index ''b''"
  by (simp add: is_array_index_def array_index_def is_digit_def)

lemma bulk_example:
  assumes "inherited e KObject ''b'' = None" and "new_table e table = None"
  shows "build_bulk_table e table
           [JObj [(''a'', JNum 1), (''b'', JNum 2)], JObj [(''a'', JNum 3)]] =
         Inr \<lparr>table_name = table,
              columns = [add_column ''a'', add_column ''b''],
              rows = [[JNum 1, JNum 2], [JNum 3, JUndefined]]\<rparr>"
proof -
  have "own_key_order [''a'', ''b''] = [''a'', ''b'']"
    by (rule own_key_order_plain) (simp add: key_a key_b)
  with assms show ?thesis
    by (simp add: build_bulk_table_def)
qed


lemma bulk_try_sends:
  "bulk_tables (new_events s (snd (bulk_try e table items s))) =
     (case (template_literal table, fst (ensure_pool_initialized e s),
            build_bulk_table e table items) of
        (None, Inr u, Inr t) \<Rightarrow> [t]
      | other \<Rightarrow> [])"
proof (cases "template_literal table")
  case (Some err)
  then show ?thesis by (simp add: bulk_try_def new_events_def)
next
  case None
  obtain r s1 where en: "ensure_pool_initialized e s = (r, s1)"
    by (cases "ensure_pool_initialized e s")
  from ensure_pool_events[OF en] obtain evs where
    evs: "trace s1 = trace s @ evs" "list_all pool_event evs" by blast
  have nb: "bulk_tables evs = []" by (rule pool_events_no_bulk[OF evs(2)])
  show ?thesis
  proof (cases r)
    case (Inl err)
    with None en evs nb show ?thesis
      by (simp add: bulk_try_def new_events_def)
  next
    case (Inr u)
    with en obtain h where h: "current_pool s1 = Inr h" using ensure_pool_sets_pool by blast
    show ?thesis
    proof (cases "build_bulk_table e table items")
      case (Inl err)
      with None en Inr evs nb show ?thesis
        by (simp add: bulk_try_def new_events_def)
    next
      case b: (Inr t)
      with None en Inr h evs nb show ?thesis
        by (auto simp: bulk_try_def new_events_def Let_def trace_emit bulk_tables_append
            split: sum.splits)
    qed
  qed
qed

lemma member_absent:
  "is_object item \<Longrightarrow> own_property item c = None \<Longrightarrow> inherited e KObject c = None
     \<Longrightarrow> member e item c = Inr JUndefined"
  by (cases item) auto

text \<open>
  Claim C6, as amended.  For a bulk insert whose rows are objects and whose table name
  the driver accepts: the columns are
  \<open>Object.keys(rows[0])\<close>, that is the keys of the first row that are array indices in
  ascending numeric order, followed by its other keys in insertion order (so in insertion
  order when no key is an array index); every column is declared \<open>VarChar(MAX)\<close> and
  nullable; every row gives one list of values, read in column order with \<open>item[col]\<close>, and
  the construction raises no error; a key that a row does not have and that the row does
  not inherit from its prototype gives \<open>undefined\<close>; the rows \<open>[{a:1,b:2},{a:3}]\<close> give
  the columns \<open>a, b\<close> and the rows \<open>[1, 2]\<close> and \<open>[3, undefined]\<close>; and the only table the
  handler sends to the driver is the one so built.
\<close>

theorem bulk_table_is_built_from_the_first_row:
  assumes "list_all is_object others" and "new_table e table = None"
  shows "(\<exists>rs. build_bulk_table e table (JObj kvs # others) =
              Inr \<lparr>table_name = table,
                   columns = map (\<lambda>c. \<lparr>column_name = c, column_type = VarCharMax, nullable = True\<rparr>)
                               (own_key_order (map fst kvs)),
                   rows = rs\<rparr>
            \<and> map (map Inr) rs =
                map (\<lambda>item. map (member e item) (own_key_order (map fst kvs))) (JObj kvs # others))
       \<and> (list_all (\<lambda>k. \<not> is_array_index k) (map fst kvs) \<longrightarrow>
            own_key_order (map fst kvs) = map fst kvs)
       \<and> (is_object item \<and> own_property item c = None \<and> inherited e KObject c = None \<longrightarrow>
            member e item c = Inr JUndefined)
       \<and> (inherited e KObject ''b'' = None \<longrightarrow>
            build_bulk_table e table
              [JObj [(''a'', JNum 1), (''b'', JNum 2)], JObj [(''a'', JNum 3)]] =
            Inr \<lparr>table_name = table,
                 columns = [\<lparr>column_name = ''a'', column_type = VarCharMax, nullable = True\<rparr>,
                            \<lparr>column_name = ''b'', column_type = VarCharMax, nullable = True\<rparr>],
                 rows = [[JNum 1, JNum 2], [JNum 3, JUndefined]]\<rparr>)
       \<and> bulk_tables (new_events s (snd (bulk_try e table items s))) =
            (case (template_literal table, fst (ensure_pool_initialized e s),
                   build_bulk_table e table items) of
               (None, Inr u, Inr t) \<Rightarrow> [t]
             | other \<Rightarrow> [])"
proof (intro conjI impI)
  let ?cols = "own_key_order (map fst kvs)"
  from assms(1) have "list_all is_object (JObj kvs # others)" by simp
  from add_rows_objects[OF this] obtain rs where
    rs: "add_rows e ?cols (JObj kvs # others) = Inr rs" by blast
  have "build_bulk_table e table (JObj kvs # others) =
          Inr \<lparr>table_name = table,
               columns = map (\<lambda>c. \<lparr>column_name = c, column_type = VarCharMax, nullable = True\<rparr>) ?cols,
               rows = rs\<rparr>"
    using rs assms(2) by (simp add: build_bulk_table_def add_column_def del: add_rows.simps)
  moreover have "map (map Inr) rs = map (\<lambda>item. map (member e item) ?cols) (JObj kvs # others)"
    by (rule add_rows_Inr[OF rs])
  ultimately show "\<exists>rs. build_bulk_table e table (JObj kvs # others) =
              Inr \<lparr>table_name = table,
                   columns = map (\<lambda>c. \<lparr>column_name = c, column_type = VarCharMax, nullable = True\<rparr>) ?cols,
                   rows = rs\<rparr>
            \<and> map (map Inr) rs = map (\<lambda>item. map (member e item) ?cols) (JObj kvs # others)"
    by blast
next
  assume "list_all (\<lambda>k. \<not> is_array_index k) (map fst kvs)"
  then show "own_key_order (map fst kvs) = map fst kvs" by (rule own_key_order_plain)
next
  assume "is_object item \<and> own_property item c = None \<and> inherited e KObject c = None"
  then show "member e item c = Inr JUndefined" by (simp add: member_absent)
next
  assume "inherited e KObject ''b'' = None"
  from bulk_example[OF this assms(2)]
  show "build_bulk_table e table
              [JObj [(''a'', JNum 1), (''b'', JNum 2)], JObj [(''a'', JNum 3)]] =
            Inr \<lparr>table_name = table,
                 columns = [\<lparr>column_name = ''a'', column_type = VarCharMax, nullable = True\<rparr>,
                            \<lparr>column_name = ''b'', column_type = VarCharMax, nullable = True\<rparr>],
                 rows = [[JNum 1, JNum 2], [JNum 3, JUndefined]]\<rparr>"
    by (simp add: add_column_def)
next
  show "bulk_tables (new_events s (snd (bulk_try e table items s))) =
            (case (template_literal table, fst (ensure_pool_initialized e s),
                   build_bulk_table e table items) of
               (None, Inr u, Inr t) \<Rightarrow> [t]
             | other \<Rightarrow> [])"
    by (rule bulk_try_sends)
qed

lemma healthy_no_b: "inherited healthy_env KObject ''b'' = None"
  by (simp add: healthy_env_def object_prototype_def)

theorem bulk_table_is_built_from_the_first_row_witness:
  "list_all is_object [JObj [(''a'', JNum 3)]]
   \<and> new_table healthy_env (JStr ''t'') = None
   \<and> inherited healthy_env KObject ''b'' = None
   \<and> own_property (JObj [(''a'', JNum 3)]) ''b'' = None
   \<and> member healthy_env (JObj [(''a'', JNum 3)]) ''b'' = Inr JUndefined
   \<and> own_key_order (map fst [(''a'', JNum 1), (''b'', JNum 2)]) = [''a'', ''b'']
   \<and> build_bulk_table healthy_env (JStr ''t'')
              [JObj [(''a'', JNum 1), (''b'', JNum 2)], JObj [(''a'', JNum 3)]] =
            Inr \<lparr>table_name = JStr ''t'',
                 columns = [\<lparr>column_name = ''a'', column_type = VarCharMax, nullable = True\<rparr>,
                            \<lparr>column_name = ''b'', column_type = VarCharMax, nullable = True\<rparr>],
                 rows = [[JNum 1, JNum 2], [JNum 3, JUndefined]]\<rparr>"
proof -
  have o: "list_all is_object [JObj [(''a'', JNum 3)]]" by simp
  have k: "list_all (\<lambda>k. \<not> is_array_index k) (map fst [(''a'', JNum 1), (''b'', JNum 2)])"
    by (simp add: key_a key_b)
  have p: "own_property (JObj [(''a'', JNum 3)]) ''b'' = None" by simp
  have i: "is_object (JObj [(''a'', JNum 3)])" by simp
  have n: "new_table healthy_env (JStr ''t'') = None" by (simp add: healthy_env_def)
  note T = bulk_table_is_built_from_the_first_row[OF o n,
      of "[(''a'', JNum 1), (''b'', JNum 2)]" "JObj [(''a'', JNum 3)]" "''b''"]
  from T k have "own_key_order (map fst [(''a'', JNum 1), (''b'', JNum 2)]) =
      map fst [(''a'', JNum 1), (''b'', JNum 2)]" by blast
  then have k': "own_key_order (map fst [(''a'', JNum 1), (''b'', JNum 2)]) = [''a'', ''b'']"
    by simp
  from T healthy_no_b p i have m: "member healthy_env (JObj [(''a'', JNum 3)]) ''b'' = Inr JUndefined"
    by blast
  from T healthy_no_b have "build_bulk_table healthy_env (JStr ''t'')
              [JObj [(''a'', JNum 1), (''b'', JNum 2)], JObj [(''a'', JNum 3)]] =
            Inr \<lparr>table_name = JStr ''t'',
                 columns = [\<lparr>column_name = ''a'', column_type = VarCharMax, nullable = True\<rparr>,
                            \<lparr>column_name = ''b'', column_type = VarCharMax, nullable = True\<rparr>],
                 rows = [[JNum 1, JNum 2], [JNum 3, JUndefined]]\<rparr>"
    by blast
  with o n healthy_no_b p m k' show ?thesis by blast
qed

lemma key_1: "is_array_index ''1''"
  by (simp add: is_array_index_def array_index_def is_digit_def decimal_value_def digit_value_def)

text \<open>
  Claim C6 as it is stated fails on a first row with a numeric key: for the row
  \<open>{"b":1,"1":2}\<close> the columns are \<open>1, b\<close>, not the insertion order \<open>b, 1\<close>.
\<close>

theorem bulk_columns_leave_insertion_order:
  "build_bulk_table healthy_env (JStr ''t'') [JObj [(''b'', JNum 1), (''1'', JNum 2)]] =
     Inr \<lparr>table_name = JStr ''t'',
          columns = [\<lparr>column_name = ''1'', column_type = VarCharMax, nullable = True\<rparr>,
                     \<lparr>column_name = ''b'', column_type = VarCharMax, nullable = True\<rparr>],
          rows = [[JNum 2, JNum 1]]\<rparr>
   \<and> [''1'', ''b''] \<noteq> map fst [(''b'', JNum 1), (''1'', JNum 2)]"
proof -
  have "own_key_order [''b'', ''1''] = [''1'', ''b'']"
    by (simp add: own_key_order_def key_1 key_b)
  then show ?thesis
    by (simp add: build_bulk_table_def add_column_def healthy_env_def)
qed


lemma same_on_member:
  assumes "same_on cols r r'" and "c \<in> set cols"
  shows "member e r c = member e r' c"
proof -
  from assms(1) obtain kvs kvs' where
    o: "r = JObj kvs" "r' = JObj kvs'" "list_all (\<lambda>c. map_of kvs c = map_of kvs' c) cols"
    by (cases r; cases r') auto
  from o(3) assms(2) have "map_of kvs c = map_of kvs' c" by (simp add: list_all_iff)
  with o(1,2) show ?thesis by (simp add: member_object del: member.simps)
qed

lemma same_on_row_values:
  assumes "same_on cols r r'" and "set cs \<subseteq> set cols"
  shows "row_values e r cs = row_values e r' cs"
  using assms(2)
proof (induction cs)
  case Nil
  show ?case by simp
next
  case (Cons c cs)
  then have "member e r c = member e r' c" "row_values e r cs = row_values e r' cs"
    using same_on_member[OF assms(1)] by auto
  then show ?case by (simp cong: sum.case_cong)
qed

lemma same_on_add_rows:
  "list_all2 (same_on cols) items items' \<Longrightarrow> add_rows e cols items = add_rows e cols items'"
proof (induction rule: list_all2_induct)
  case Nil
  show ?case by simp
next
  case (Cons r items r' items')
  then have "row_values e r cols = row_values e r' cols"
    using same_on_row_values[of cols r r' cols e] by simp
  with Cons show ?case by (simp cong: sum.case_cong)
qed

lemma same_on_objects: "list_all2 (same_on cols) items items' \<Longrightarrow> list_all is_object items"
proof (induction rule: list_all2_induct)
  case Nil
  show ?case by simp
next
  case (Cons r items r' items')
  from Cons(1) have "is_object r" by (cases r; cases r') auto
  with Cons show ?case by simp
qed

lemma member_defined:
  "v \<noteq> JUndefined \<Longrightarrow> v \<noteq> JNull \<Longrightarrow> \<exists>x. member e v c = Inr x"
  by (cases v) (auto split: option.splits)

lemma row_values_defined:
  "v \<noteq> JUndefined \<Longrightarrow> v \<noteq> JNull \<Longrightarrow> \<exists>vs. row_values e v cols = Inr vs"
proof (induction cols)
  case Nil
  show ?case by simp
next
  case (Cons c cols)
  then obtain vs x where "row_values e v cols = Inr vs" "member e v c = Inr x"
    using member_defined[of v e c] by auto
  then show ?case by simp
qed

lemma add_rows_length: "add_rows e cols items = Inr rs \<Longrightarrow> length rs = length items"
  by (induction items arbitrary: rs) (auto split: sum.splits)

text \<open>
  Claim C10.  Let the later rows of two bulk requests for the same table be objects that
  agree, row by row, on every key of the first row (they may differ in any other key).
  Then the two requests build the same table, reading the values of the rows raises no
  error and gives one list of values per row, the same for both requests, and the handler
  behaves the same on both: same response, same trace.
\<close>

theorem extra_keys_of_later_rows_are_ignored:
  assumes "object_keys first = Inr cols"
    and "list_all2 (same_on cols) others others'"
  shows "build_bulk_table e table (first # others) = build_bulk_table e table (first # others')
       \<and> (\<exists>rs. add_rows e cols (first # others) = Inr rs
               \<and> add_rows e cols (first # others') = Inr rs
               \<and> length rs = Suc (length others))
       \<and> bulk_handler e (JObj [(''table'', table), (''data'', JArr (first # others))]) s =
           bulk_handler e (JObj [(''table'', table), (''data'', JArr (first # others'))]) s"
proof -
  have rows_eq: "add_rows e cols (first # others) = add_rows e cols (first # others')"
    using same_on_add_rows[OF assms(2), of e] by (simp cong: sum.case_cong)
  have eq: "build_bulk_table e table (first # others) =
      build_bulk_table e table (first # others')"
    by (simp only: build_bulk_table_def list.case assms(1) sum.case rows_eq)
  from assms(1) have nn: "first \<noteq> JUndefined" "first \<noteq> JNull" by auto
  from row_values_defined[OF nn, of e cols] obtain vs where
    vs: "row_values e first cols = Inr vs" by blast
  from add_rows_objects[OF same_on_objects[OF assms(2)], of e cols] obtain rs where
    rs: "add_rows e cols others = Inr rs" by blast
  from vs rs have ar: "add_rows e cols (first # others) = Inr (vs # rs)" by simp
  have len: "length (vs # rs) = Suc (length others)"
    using add_rows_length[OF rs] by simp
  from ar rows_eq have ar': "add_rows e cols (first # others') = Inr (vs # rs)" by simp
  have tries: "bulk_try e table (first # others) s = bulk_try e table (first # others') s"
    by (simp only: bulk_try_def eq)
  have "bulk_handler e (JObj [(''table'', table), (''data'', JArr (first # others))]) s =
           bulk_handler e (JObj [(''table'', table), (''data'', JArr (first # others'))]) s"
    by (simp add: bulk_handler_def get_prop_def Let_def tries)
  with eq ar ar' len show ?thesis by blast
qed

theorem extra_keys_of_later_rows_are_ignored_witness:
  "object_keys (JObj [(''a'', JNum 1)]) = Inr [''a'']
   \<and> list_all2 (same_on [''a''])
        [JObj [(''a'', JNum 2), (''z'', JNum 9)]] [JObj [(''a'', JNum 2)]]
   \<and> build_bulk_table healthy_env (JStr ''t'')
        [JObj [(''a'', JNum 1)], JObj [(''a'', JNum 2), (''z'', JNum 9)]] =
      build_bulk_table healthy_env (JStr ''t'') [JObj [(''a'', JNum 1)], JObj [(''a'', JNum 2)]]
   \<and> build_bulk_table healthy_env (JStr ''t'') [JObj [(''a'', JNum 1)], JObj [(''a'', JNum 2)]] =
      Inr \<lparr>table_name = JStr ''t'', columns = [add_column ''a''],
           rows = [[JNum 1], [JNum 2]]\<rparr>"
proof -
  have k: "object_keys (JObj [(''a'', JNum 1)]) = Inr [''a'']"
    using own_key_order_plain[of "[''a'']"] by (simp add: key_a)
  have l: "list_all2 (same_on [''a''])
        [JObj [(''a'', JNum 2), (''z'', JNum 9)]] [JObj [(''a'', JNum 2)]]"
    by simp
  from extra_keys_of_later_rows_are_ignored[OF k l, of healthy_env "JStr ''t''"] have
    "build_bulk_table healthy_env (JStr ''t'')
        [JObj [(''a'', JNum 1)], JObj [(''a'', JNum 2), (''z'', JNum 9)]] =
      build_bulk_table healthy_env (JStr ''t'') [JObj [(''a'', JNum 1)], JObj [(''a'', JNum 2)]]"
    by blast
  moreover have "build_bulk_table healthy_env (JStr ''t'')
        [JObj [(''a'', JNum 1)], JObj [(''a'', JNum 2)]] =
      Inr \<lparr>table_name = JStr ''t'', columns = [add_column ''a''],
           rows = [[JNum 1], [JNum 2]]\<rparr>"
    using k by (simp add: build_bulk_table_def healthy_env_def)
  ultimately show ?thesis using k l by blast
qed

section \<open>Transactions\<close>

lemma ok_events_Nil: "ok_events e h qs [] = []"
  by (simp add: ok_events_def)

lemma ok_events_Cons:
  "ok_events e h (q # qs) (r # rs) = statement_event e h q (Inr r) # ok_events e h qs rs"
  by (simp add: ok_events_def)

lemma destructure_query_Inr:
  "destructure_query qi = Inr (q, ps) \<Longrightarrow> q = get_prop qi ''query'' \<and> ps = get_prop qi ''params''"
  by (cases qi) auto

lemma run_statements_trace:
  "run_statements e h qs acc s = (res, s') \<Longrightarrow>
   \<exists>rs tl. trace s' = trace s @ ok_events e h qs rs @ tl
     \<and> length rs \<le> length qs
     \<and> (case res of
          Inr results \<Rightarrow> tl = [] \<and> length rs = length qs \<and> results = acc @ map statement_result rs
        | Inl err \<Rightarrow> length rs < length qs
            \<and> (tl = [] \<or> tl = [statement_event e h (qs ! length rs) (Inl err)]))"
proof (induction qs arbitrary: acc s)
  case Nil
  then have "res = Inr acc" "s' = s" by simp_all
  then show ?case
    by (intro exI[of _ "[]"]) (simp add: ok_events_Nil)
next
  case (Cons qi qs)
  show ?case
  proof (cases "destructure_query qi")
    case (Inl err)
    with Cons.prems have "res = Inl err" "s' = s" by simp_all
    then show ?thesis
      by (intro exI[of _ "[]"]) (simp add: ok_events_Nil)
  next
    case (Inr qp)
    obtain q ps where qp: "qp = (q, ps)" by (cases qp)
    with Inr destructure_query_Inr have q: "q = get_prop qi ''query''" and ps: "ps = get_prop qi ''params''"
      by blast+
    show ?thesis
    proof (cases "bind_params e ps")
      case (Inl err)
      with Cons.prems Inr qp have "res = Inl err" "s' = s" by simp_all
      then show ?thesis
        by (intro exI[of _ "[]"]) (simp add: ok_events_Nil)
    next
      case bp: (Inr ins)
      then have ins: "inputs_of e qi = ins" by (simp add: inputs_of_def ps)
      let ?r = "request_query e (trace s) (OfTransaction h) ins q"
      let ?s1 = "emit (DbQuery (OfTransaction h) ins q ?r) s"
      show ?thesis
      proof (cases ?r)
        case (Inl err)
        with Cons.prems Inr qp bp have "res = Inl err" "s' = ?s1" by (simp_all add: Let_def)
        then have "trace s' = trace s @ ok_events e h (qi # qs) [] @ [statement_event e h qi (Inl err)]"
          using Inl by (simp add: trace_emit ok_events_Nil statement_event_def ins q)
        with \<open>res = Inl err\<close> show ?thesis
          by (intro exI[of _ "[]"] exI[of _ "[statement_event e h qi (Inl err)]"]) simp
      next
        case ok: (Inr result)
        with Cons.prems Inr qp bp have
          rec: "run_statements e h qs (acc @ [statement_result result]) ?s1 = (res, s')"
          by (simp add: Let_def)
        from Cons.IH[OF rec] obtain rs tl where
          ih: "trace s' = trace ?s1 @ ok_events e h qs rs @ tl" "length rs \<le> length qs"
              "(case res of
                  Inr results \<Rightarrow> tl = [] \<and> length rs = length qs
                     \<and> results = (acc @ [statement_result result]) @ map statement_result rs
                | Inl err \<Rightarrow> length rs < length qs
                     \<and> (tl = [] \<or> tl = [statement_event e h (qs ! length rs) (Inl err)]))"
          by blast
        have t: "trace s' = trace s @ ok_events e h (qi # qs) (result # rs) @ tl"
          using ok by (simp add: ih(1) trace_emit ok_events_Cons statement_event_def ins q)
        have "(case res of
                  Inr results \<Rightarrow> tl = [] \<and> length (result # rs) = length (qi # qs)
                     \<and> results = acc @ map statement_result (result # rs)
                | Inl err \<Rightarrow> length (result # rs) < length (qi # qs)
                     \<and> (tl = [] \<or> tl = [statement_event e h ((qi # qs) ! length (result # rs)) (Inl err)]))"
          using ih(3) by (cases res) auto
        with t ih(2) show ?thesis
          by (intro exI[of _ "result # rs"] exI[of _ tl]) simp
      qed
    qed
  qed
qed

lemma transaction_body_trace:
  assumes "transaction_body e h qs s = (res, s')"
  shows "\<exists>b rs tl. trace s' = trace s @ DbBegin h b # ok_events e h qs rs @ tl
     \<and> length rs \<le> length qs
     \<and> (case res of
          Inr results \<Rightarrow> b = None \<and> length rs = length qs
             \<and> results = map statement_result rs \<and> tl = [DbCommit h None]
        | Inl err \<Rightarrow>
             (b = Some err \<and> rs = [] \<and> tl = [])
           \<or> (b = None \<and> length rs < length qs
                \<and> (tl = [] \<or> tl = [statement_event e h (qs ! length rs) (Inl err)]))
           \<or> (b = None \<and> length rs = length qs \<and> tl = [DbCommit h (Some err)]))"
proof -
  let ?b = "transaction_begin e (trace s) h"
  let ?s1 = "emit (DbBegin h ?b) s"
  show ?thesis
  proof (cases ?b)
    case (Some err)
    with assms have "res = Inl err" "s' = ?s1"
      by (simp_all add: transaction_body_def Let_def)
    then have "trace s' = trace s @ DbBegin h (Some err) # ok_events e h qs [] @ []"
      by (simp add: trace_emit Some ok_events_Nil)
    with \<open>res = Inl err\<close> show ?thesis
      by (intro exI[of _ "Some err"] exI[of _ "[]"]) simp
  next
    case None
    obtain r2 s2 where rs2: "run_statements e h qs [] ?s1 = (r2, s2)"
      by (cases "run_statements e h qs [] ?s1")
    from run_statements_trace[OF rs2] obtain rs tl where
      st: "trace s2 = trace ?s1 @ ok_events e h qs rs @ tl" "length rs \<le> length qs"
          "(case r2 of
              Inr results \<Rightarrow> tl = [] \<and> length rs = length qs \<and> results = [] @ map statement_result rs
            | Inl err \<Rightarrow> length rs < length qs
                \<and> (tl = [] \<or> tl = [statement_event e h (qs ! length rs) (Inl err)]))"
      by blast
    have t2: "trace s2 = trace s @ DbBegin h None # ok_events e h qs rs @ tl"
      by (simp add: st(1) trace_emit None)
    show ?thesis
    proof (cases r2)
      case (Inl err)
      with assms None rs2 have "res = Inl err" "s' = s2"
        by (simp_all add: transaction_body_def Let_def)
      with t2 st(2,3) Inl show ?thesis
        by (intro exI[of _ None] exI[of _ rs] exI[of _ tl]) simp
    next
      case (Inr results)
      with st(3) have full: "tl = []" "length rs = length qs" "results = map statement_result rs"
        by simp_all
      let ?c = "transaction_commit e (trace s2) h"
      let ?s3 = "emit (DbCommit h ?c) s2"
      have t3: "trace ?s3 = trace s @ DbBegin h None # ok_events e h qs rs @ [DbCommit h ?c]"
        by (simp add: trace_emit t2 full)
      show ?thesis
      proof (cases ?c)
        case None2: None
        with assms None rs2 Inr have "res = Inr results" "s' = ?s3"
          by (simp_all add: transaction_body_def Let_def)
        with t3 full None2 show ?thesis
          by (intro exI[of _ None] exI[of _ rs] exI[of _ "[DbCommit h None]"]) simp
      next
        case (Some err)
        with assms None rs2 Inr have "res = Inl err" "s' = ?s3"
          by (simp_all add: transaction_body_def Let_def)
        with t3 full Some show ?thesis
          by (intro exI[of _ None] exI[of _ rs] exI[of _ "[DbCommit h (Some err)]"]) simp
      qed
    qed
  qed
qed


lemma rollback_trace:
  "\<exists>r. trace (rollback e h s) =
         trace s @ DbRollback h r # (case r of None \<Rightarrow> [] | Some rerr \<Rightarrow> [Console (RollbackFailed rerr)])
       \<and> r = transaction_rollback e (trace s) h"
  by (cases "transaction_rollback e (trace s) h") (simp_all add: rollback_def Let_def trace_emit)

lemma transaction_catch_None:
  assumes "transaction_catch e None err s = (resp, s')"
  shows "resp = error_response e err
       \<and> (\<exists>post. trace s' = trace s @ Console (HandlerError ''Transaction error:'' err) # post
                 \<and> list_all pool_event post)"
proof -
  let ?s1 = "emit (Console (HandlerError ''Transaction error:'' err)) s"
  from assms have r: "resp = error_response e err" and s': "s' = reconnect e err ?s1"
    by (simp_all add: transaction_catch_def Let_def)
  from reconnect_pool_events[of e err ?s1] obtain evs where
    "trace (reconnect e err ?s1) = trace ?s1 @ evs" "list_all pool_event evs" by blast
  with r s' show ?thesis by (simp add: trace_emit)
qed

lemma transaction_catch_Some:
  assumes "transaction_catch e (Some h) err s = (resp, s')"
  shows "resp = error_response e err
       \<and> (\<exists>r post. trace s' =
                     trace s @ Console (HandlerError ''Transaction error:'' err) # DbRollback h r # post
                 \<and> list_all pool_event post
                 \<and> r = transaction_rollback e
                         (trace s @ [Console (HandlerError ''Transaction error:'' err)]) h
                 \<and> (case r of None \<Rightarrow> True
                     | Some rerr \<Rightarrow> take 1 post = [Console (RollbackFailed rerr)]))"
proof -
  let ?s1 = "emit (Console (HandlerError ''Transaction error:'' err)) s"
  let ?s2 = "rollback e h ?s1"
  from assms have r: "resp = error_response e err" and s': "s' = reconnect e err ?s2"
    by (simp_all add: transaction_catch_def Let_def)
  from rollback_trace[of e h ?s1] obtain rb where
    rb: "trace ?s2 = trace ?s1 @ DbRollback h rb
           # (case rb of None \<Rightarrow> [] | Some rerr \<Rightarrow> [Console (RollbackFailed rerr)])"
    and rbv: "rb = transaction_rollback e (trace ?s1) h" by blast
  from reconnect_pool_events[of e err ?s2] obtain evs where
    evs: "trace (reconnect e err ?s2) = trace ?s2 @ evs" "list_all pool_event evs" by blast
  let ?post = "(case rb of None \<Rightarrow> [] | Some rerr \<Rightarrow> [Console (RollbackFailed rerr)]) @ evs"
  have "trace s' = trace s @ Console (HandlerError ''Transaction error:'' err) # DbRollback h rb # ?post"
    by (simp add: s' evs rb trace_emit)
  moreover have "list_all pool_event ?post" using evs(2) by (cases rb) simp_all
  moreover have "(case rb of None \<Rightarrow> True
                     | Some rerr \<Rightarrow> take 1 ?post = [Console (RollbackFailed rerr)])"
    by (cases rb) simp_all
  moreover have "rb = transaction_rollback e
                         (trace s @ [Console (HandlerError ''Transaction error:'' err)]) h"
    using rbv by (simp add: trace_emit)
  ultimately show ?thesis using r by blast
qed

lemma transaction_handler_trace:
  assumes "isArray (get_prop body ''queries'')"
    and "items_of (get_prop body ''queries'') \<noteq> []"
    and "transaction_handler e body s = (resp, s')"
  shows "\<exists>g. list_all pool_event g \<and>
     ((\<exists>err post. resp = error_response e err
          \<and> trace s' = trace s @ g @ Console (HandlerError ''Transaction error:'' err) # post
          \<and> list_all pool_event post)
    \<or> (\<exists>h b rs tl err r post. resp = error_response e err
          \<and> trace s' = trace s @ g @ (DbBegin h b # ok_events e h (items_of (get_prop body ''queries'')) rs @ tl)
                 @ Console (HandlerError ''Transaction error:'' err) # DbRollback h r # post
          \<and> list_all pool_event post
          \<and> length rs \<le> length (items_of (get_prop body ''queries''))
          \<and> r = transaction_rollback e
                  (trace s @ g @ (DbBegin h b # ok_events e h (items_of (get_prop body ''queries'')) rs @ tl)
                     @ [Console (HandlerError ''Transaction error:'' err)]) h
          \<and> (case r of None \<Rightarrow> True | Some rerr \<Rightarrow> take 1 post = [Console (RollbackFailed rerr)])
          \<and> ((b = Some err \<and> rs = [] \<and> tl = [])
             \<or> (b = None \<and> length rs < length (items_of (get_prop body ''queries''))
                  \<and> (tl = [] \<or> tl = [statement_event e h
                         (items_of (get_prop body ''queries'') ! length rs) (Inl err)]))
             \<or> (b = None \<and> length rs = length (items_of (get_prop body ''queries''))
                  \<and> tl = [DbCommit h (Some err)])))
    \<or> (\<exists>h rs. resp = (200, JObj [(''success'', JBool True),
                                    (''results'', JArr (map statement_result rs))])
          \<and> length rs = length (items_of (get_prop body ''queries''))
          \<and> trace s' = trace s @ g @ DbBegin h None
                 # ok_events e h (items_of (get_prop body ''queries'')) rs @ [DbCommit h None]))"
proof -
  let ?qs = "items_of (get_prop body ''queries'')"
  from assms(1) have tr: "truthy (get_prop body ''queries'')"
    by (cases "get_prop body ''queries''") auto
  obtain r1 s1 where en: "ensure_pool_initialized e s = (r1, s1)"
    by (cases "ensure_pool_initialized e s")
  from ensure_pool_events[OF en] obtain g where
    g: "trace s1 = trace s @ g" "list_all pool_event g" by blast
  show ?thesis
  proof (cases r1)
    case (Inl err)
    with assms tr en have "transaction_catch e None err s1 = (resp, s')"
      by (simp add: transaction_handler_def Let_def)
    from transaction_catch_None[OF this] g show ?thesis
      by (intro exI[of _ g]) auto
  next
    case (Inr u)
    with en obtain h where h: "current_pool s1 = Inr h" using ensure_pool_sets_pool by blast
    obtain r2 s2 where tb: "transaction_body e h ?qs s1 = (r2, s2)"
      by (cases "transaction_body e h ?qs s1")
    from transaction_body_trace[OF tb] obtain b rs tl where
      bt: "trace s2 = trace s1 @ DbBegin h b # ok_events e h ?qs rs @ tl"
          "length rs \<le> length ?qs"
          "(case r2 of
              Inr results \<Rightarrow> b = None \<and> length rs = length ?qs
                 \<and> results = map statement_result rs \<and> tl = [DbCommit h None]
            | Inl err \<Rightarrow>
                 (b = Some err \<and> rs = [] \<and> tl = [])
               \<or> (b = None \<and> length rs < length ?qs
                    \<and> (tl = [] \<or> tl = [statement_event e h (?qs ! length rs) (Inl err)]))
               \<or> (b = None \<and> length rs = length ?qs \<and> tl = [DbCommit h (Some err)]))"
      by blast
    show ?thesis
    proof (cases r2)
      case ok: (Inr results)
      with assms tr en Inr h tb have
        "resp = (200, JObj [(''success'', JBool True), (''results'', JArr results)])" "s' = s2"
        by (simp_all add: transaction_handler_def Let_def)
      moreover from bt(3) ok have "b = None" "length rs = length ?qs"
        "results = map statement_result rs" "tl = [DbCommit h None]" by simp_all
      ultimately have
        "resp = (200, JObj [(''success'', JBool True), (''results'', JArr (map statement_result rs))])
          \<and> length rs = length ?qs
          \<and> trace s' = trace s @ g @ DbBegin h None # ok_events e h ?qs rs @ [DbCommit h None]"
        using bt(1) g(1) by simp
      with g(2) show ?thesis by blast
    next
      case bad: (Inl err)
      with assms tr en Inr h tb have "transaction_catch e (Some h) err s2 = (resp, s')"
        by (simp add: transaction_handler_def Let_def)
      from transaction_catch_Some[OF this] obtain r post where
        c: "resp = error_response e err"
           "trace s' = trace s2 @ Console (HandlerError ''Transaction error:'' err) # DbRollback h r # post"
           "list_all pool_event post"
           "(case r of None \<Rightarrow> True | Some rerr \<Rightarrow> take 1 post = [Console (RollbackFailed rerr)])"
           "r = transaction_rollback e
                  (trace s2 @ [Console (HandlerError ''Transaction error:'' err)]) h"
        by blast
      have rv: "r = transaction_rollback e
                  (trace s @ g @ (DbBegin h b # ok_events e h ?qs rs @ tl)
                     @ [Console (HandlerError ''Transaction error:'' err)]) h"
        using c(5) by (simp add: bt(1) g(1))
      have t: "trace s' = trace s @ g @ (DbBegin h b # ok_events e h ?qs rs @ tl)
                 @ Console (HandlerError ''Transaction error:'' err) # DbRollback h r # post"
        by (simp add: c(2) bt(1) g(1))
      from bt(3) bad have sh: "(b = Some err \<and> rs = [] \<and> tl = [])
               \<or> (b = None \<and> length rs < length ?qs
                    \<and> (tl = [] \<or> tl = [statement_event e h (?qs ! length rs) (Inl err)]))
               \<or> (b = None \<and> length rs = length ?qs \<and> tl = [DbCommit h (Some err)])"
        by simp
      have "\<exists>h b rs tl err r post. resp = error_response e err
          \<and> trace s' = trace s @ g @ (DbBegin h b # ok_events e h ?qs rs @ tl)
                 @ Console (HandlerError ''Transaction error:'' err) # DbRollback h r # post
          \<and> list_all pool_event post
          \<and> length rs \<le> length ?qs
          \<and> r = transaction_rollback e
                  (trace s @ g @ (DbBegin h b # ok_events e h ?qs rs @ tl)
                     @ [Console (HandlerError ''Transaction error:'' err)]) h
          \<and> (case r of None \<Rightarrow> True | Some rerr \<Rightarrow> take 1 post = [Console (RollbackFailed rerr)])
          \<and> ((b = Some err \<and> rs = [] \<and> tl = [])
             \<or> (b = None \<and> length rs < length ?qs
                  \<and> (tl = [] \<or> tl = [statement_event e h (?qs ! length rs) (Inl err)]))
             \<or> (b = None \<and> length rs = length ?qs \<and> tl = [DbCommit h (Some err)]))"
        using c(1) t c(3) bt(2) rv c(4) sh by blast
      with g(2) show ?thesis by blast
    qed
  qed
qed


lemma tx_statements_ok_events:
  "tx_statements (ok_events e h qs rs) =
     map (\<lambda>(queryInfo, r). (get_prop queryInfo ''query'', inputs_of e queryInfo, Inr r)) (zip qs rs)"
proof (induction qs arbitrary: rs)
  case Nil
  show ?case by (simp add: ok_events_def)
next
  case (Cons q qs)
  show ?case
  proof (cases rs)
    case Nil
    then show ?thesis by (simp add: ok_events_def)
  next
    case (Cons r rs')
    with Cons.IH[of rs'] show ?thesis
      by (simp add: ok_events_Cons statement_event_def)
  qed
qed

lemma commits_ok_events: "commits (ok_events e h qs rs) = []"
proof (induction qs arbitrary: rs)
  case Nil
  show ?case by (simp add: ok_events_def)
next
  case (Cons q qs)
  show ?case
  proof (cases rs)
    case Nil
    then show ?thesis by (simp add: ok_events_def)
  next
    case (Cons r rs')
    with Cons.IH[of rs'] show ?thesis
      by (simp add: ok_events_Cons statement_event_def)
  qed
qed

lemma texts_ok_events:
  "length rs \<le> length qs \<Longrightarrow>
   map fst (tx_statements (ok_events e h qs rs)) =
     map (\<lambda>queryInfo. get_prop queryInfo ''query'') (take (length rs) qs)"
proof (induction qs arbitrary: rs)
  case Nil
  then show ?case by (simp add: ok_events_def)
next
  case (Cons q qs)
  show ?case
  proof (cases rs)
    case Nil
    then show ?thesis by (simp add: ok_events_def)
  next
    case c: (Cons r rs')
    with Cons.prems have "length rs' \<le> length qs" by simp
    from Cons.IH[OF this] c show ?thesis
      by (simp add: ok_events_Cons statement_event_def)
  qed
qed

lemma ok_events_outcomes:
  "(q, ins, out) \<in> set (tx_statements (ok_events e h qs rs)) \<Longrightarrow> \<exists>r. out = Inr r"
  by (auto simp: tx_statements_ok_events dest!: set_zip_rightD)

lemma new_events_append: "trace s' = trace s @ evs \<Longrightarrow> new_events s s' = evs"
  by (simp add: new_events_def)

lemma error_response_no_results: "get_prop (snd (error_response e err)) ''results'' = JUndefined"
  by (simp add: error_response_def get_prop_def)

lemma transaction_invalid:
  assumes "\<not> (isArray (get_prop body ''queries'') \<and> items_of (get_prop body ''queries'') \<noteq> [])"
  shows "transaction_handler e body s =
           ((400, JObj [(''error'', JStr ''Valid queries array is required'')]), s)"
  using assms by (auto simp: transaction_handler_def Let_def)

lemma texts_with_tail:
  assumes "length rs \<le> length qs"
    and "rest = [] \<or> (length rs < length qs \<and> rest = [statement_event e h (qs ! length rs) out])
         \<or> rest = [DbCommit h c]"
  shows "\<exists>k. k \<le> length qs
           \<and> map fst (tx_statements (ok_events e h qs rs @ rest)) =
               map (\<lambda>queryInfo. get_prop queryInfo ''query'') (take k qs)"
proof -
  note t = texts_ok_events[OF assms(1), of e h]
  from assms(2) consider (none) "rest = []"
    | (stmt) "length rs < length qs" "rest = [statement_event e h (qs ! length rs) out]"
    | (commit) "rest = [DbCommit h c]" by blast
  then show ?thesis
  proof cases
    case none
    with t assms(1) show ?thesis by auto
  next
    case commit
    with t assms(1) show ?thesis by (auto simp: tx_statements_append)
  next
    case stmt
    have "map fst (tx_statements (ok_events e h qs rs @ rest)) =
        map (\<lambda>queryInfo. get_prop queryInfo ''query'') (take (Suc (length rs)) qs)"
      using t stmt by (simp add: tx_statements_append statement_event_def take_Suc_conv_app_nth)
    with stmt(1) show ?thesis by (intro exI[of _ "Suc (length rs)"]) simp
  qed
qed

lemma no_statement_is_a_prefix:
  "tx_statements evs = [] \<Longrightarrow>
     \<exists>k. k \<le> length qs \<and> map fst (tx_statements evs) = map f (take k qs)"
  by (intro exI[of _ 0]) simp

lemma transaction_statements_and_results:
  assumes "transaction_handler e body s = (resp, s')"
  shows "(\<exists>k. k \<le> length (items_of (get_prop body ''queries''))
            \<and> map fst (tx_statements (new_events s s')) =
                map (\<lambda>queryInfo. get_prop queryInfo ''query'')
                  (take k (items_of (get_prop body ''queries''))))
       \<and> (fst resp = 200 \<longrightarrow>
            (\<exists>rs. length rs = length (items_of (get_prop body ''queries''))
               \<and> tx_statements (new_events s s') =
                   map (\<lambda>(queryInfo, r). (get_prop queryInfo ''query'', inputs_of e queryInfo, Inr r))
                     (zip (items_of (get_prop body ''queries'')) rs)
               \<and> get_prop (snd resp) ''results'' = JArr (map statement_result rs)))"
proof (cases "isArray (get_prop body ''queries'') \<and> items_of (get_prop body ''queries'') \<noteq> []")
  case False
  from transaction_invalid[OF False, of e s] assms have
    "resp = (400, JObj [(''error'', JStr ''Valid queries array is required'')])" "s' = s"
    by simp_all
  then have "tx_statements (new_events s s') = []" "fst resp \<noteq> 200"
    by (simp_all add: new_events_def)
  then show ?thesis using no_statement_is_a_prefix by blast
next
  case True
  let ?qs = "items_of (get_prop body ''queries'')"
  let ?T = "''Transaction error:''"
  from True have v: "isArray (get_prop body ''queries'')" "?qs \<noteq> []" by simp_all
  from transaction_handler_trace[OF v assms] obtain g where g: "list_all pool_event g" and
    sh: "(\<exists>err post. resp = error_response e err
          \<and> trace s' = trace s @ g @ Console (HandlerError ?T err) # post
          \<and> list_all pool_event post)
    \<or> (\<exists>h b rs tl err r post. resp = error_response e err
          \<and> trace s' = trace s @ g @ (DbBegin h b # ok_events e h ?qs rs @ tl)
                 @ Console (HandlerError ?T err) # DbRollback h r # post
          \<and> list_all pool_event post
          \<and> length rs \<le> length ?qs
          \<and> (case r of None \<Rightarrow> True | Some rerr \<Rightarrow> take 1 post = [Console (RollbackFailed rerr)])
          \<and> ((b = Some err \<and> rs = [] \<and> tl = [])
             \<or> (b = None \<and> length rs < length ?qs
                  \<and> (tl = [] \<or> tl = [statement_event e h (?qs ! length rs) (Inl err)]))
             \<or> (b = None \<and> length rs = length ?qs \<and> tl = [DbCommit h (Some err)])))
    \<or> (\<exists>h rs. resp = (200, JObj [(''success'', JBool True),
                                    (''results'', JArr (map statement_result rs))])
          \<and> length rs = length ?qs
          \<and> trace s' = trace s @ g @ DbBegin h None # ok_events e h ?qs rs @ [DbCommit h None])"
    by blast
  note ng = pool_events_no_tx[OF g]
  from sh consider
    (guard) err post where "resp = error_response e err"
      "trace s' = trace s @ g @ Console (HandlerError ?T err) # post" "list_all pool_event post"
  | (failed) h b rs tl err r post where "resp = error_response e err"
      "trace s' = trace s @ g @ (DbBegin h b # ok_events e h ?qs rs @ tl)
                 @ Console (HandlerError ?T err) # DbRollback h r # post"
      "list_all pool_event post" "length rs \<le> length ?qs"
      "tl = [] \<or> (length rs < length ?qs \<and> tl = [statement_event e h (?qs ! length rs) (Inl err)])
         \<or> tl = [DbCommit h (Some err)]"
  | (committed) h rs where
      "resp = (200, JObj [(''success'', JBool True), (''results'', JArr (map statement_result rs))])"
      "length rs = length ?qs"
      "trace s' = trace s @ g @ DbBegin h None # ok_events e h ?qs rs @ [DbCommit h None]"
    by blast
  then show ?thesis
  proof cases
    case guard
    have "tx_statements (new_events s s') = []"
      by (simp add: new_events_append[OF guard(2)] tx_statements_append ng
          pool_events_no_tx[OF guard(3)])
    moreover have "fst resp \<noteq> 200" by (simp add: guard(1) error_response_def)
    ultimately show ?thesis using no_statement_is_a_prefix by blast
  next
    case failed
    have "tx_statements (new_events s s') = tx_statements (ok_events e h ?qs rs @ tl)"
      by (simp add: new_events_append[OF failed(2)] tx_statements_append ng
          pool_events_no_tx[OF failed(3)])
    with texts_with_tail[OF failed(4,5)] have
      "\<exists>k. k \<le> length ?qs \<and> map fst (tx_statements (new_events s s')) =
               map (\<lambda>queryInfo. get_prop queryInfo ''query'') (take k ?qs)"
      by simp
    moreover have "fst resp \<noteq> 200" by (simp add: failed(1) error_response_def)
    ultimately show ?thesis by simp
  next
    case committed
    have tx: "tx_statements (new_events s s') =
        map (\<lambda>(queryInfo, r). (get_prop queryInfo ''query'', inputs_of e queryInfo, Inr r)) (zip ?qs rs)"
      by (simp add: new_events_append[OF committed(3)] tx_statements_append ng
          tx_statements_ok_events)
    have "map fst (tx_statements (new_events s s')) =
        map (\<lambda>queryInfo. get_prop queryInfo ''query'') (take (length ?qs) ?qs)"
      using texts_ok_events[of rs ?qs e h] committed(2)
      by (simp add: new_events_append[OF committed(3)] tx_statements_append ng)
    moreover have "get_prop (snd resp) ''results'' = JArr (map statement_result rs)"
      by (simp add: committed(1) get_prop_def)
    ultimately show ?thesis using tx committed(2) by blast
  qed
qed


lemma key_id: "\<not> is_array_index ''id''"
  by (simp add: is_array_index_def array_index_def is_digit_def)

lemma keys_id: "own_key_order [''id''] = [''id'']"
  by (rule own_key_order_plain) (simp add: key_id)

lemma abc_broken_run:
  "transaction_handler broken_tx_env abc_body live_pool =
     (error_response broken_tx_env bad_syntax,
      \<lparr>pool = Some 1,
        trace = [DbBegin 1 None,
                 DbQuery (OfTransaction 1) [] (JStr ''A'') (Inr one_row),
                 DbQuery (OfTransaction 1) [(''id'', JNum 7)] (JStr ''B'') (Inl bad_syntax),
                 Console (HandlerError ''Transaction error:'' bad_syntax),
                 DbRollback 1 (Some timed_out),
                 Console (RollbackFailed timed_out)]\<rparr>)"
  by (simp add: transaction_handler_def abc_body_def get_prop_def ensure_pool_initialized_def
      current_pool_def live_pool_def transaction_body_def bind_params_def keys_id
      template_literal_def broken_tx_env_def healthy_env_def emit_def Let_def
      transaction_catch_def rollback_def
      reconnect_def connection_issue_def bad_syntax_def)


lemma statement_result_spelled:
  "statement_result =
     (\<lambda>r. JObj [(''data'', (case recordset r of None \<Rightarrow> JUndefined | Some recs \<Rightarrow> JArr recs)),
                (''rowsAffected'',
                 (case rowsAffected r of [] \<Rightarrow> JUndefined | n # ns \<Rightarrow> JNum n))])"
  by (rule ext) (simp add: statement_result_def recordset_json_def first_affected_def)

lemma abc_numbered_run:
  "transaction_handler numbered_env abc_body live_pool =
     ((200, JObj [(''success'', JBool True),
                  (''results'',
                   JArr [JObj [(''data'', JArr [JObj [(''q'', JStr ''A'')]]), (''rowsAffected'', JNum 1)],
                         JObj [(''data'', JArr [JObj [(''q'', JStr ''B'')]]), (''rowsAffected'', JNum 2)],
                         JObj [(''data'', JArr [JObj [(''q'', JStr ''C'')]]), (''rowsAffected'', JNum 3)]])]),
      \<lparr>pool = Some 1,
        trace = [DbBegin 1 None,
                 DbQuery (OfTransaction 1) [] (JStr ''A'') (Inr (numbered_result (JStr ''A'') 1)),
                 DbQuery (OfTransaction 1) [(''id'', JNum 7)] (JStr ''B'')
                   (Inr (numbered_result (JStr ''B'') 2)),
                 DbQuery (OfTransaction 1) [] (JStr ''C'') (Inr (numbered_result (JStr ''C'') 3)),
                 DbCommit 1 None]\<rparr>)"
  by (simp add: transaction_handler_def abc_body_def get_prop_def ensure_pool_initialized_def
      current_pool_def live_pool_def transaction_body_def bind_params_def keys_id
      template_literal_def numbered_env_def healthy_env_def emit_def Let_def
      statement_result_def recordset_json_def first_affected_def numbered_result_def)

text \<open>
  Claim C7.  In every run of the transaction handler the statements sent inside the
  transaction are, in this order, the first \<open>k\<close> statements of the request, for some \<open>k\<close>:
  none is skipped and none is sent before its predecessor's event, which holds the
  predecessor's outcome, is in the trace.  When the response has status 200, all of them
  were sent and succeeded, and the \<open>results\<close> of the response holds, at each index, an
  object with the \<open>data\<close> (the record set) and the \<open>rowsAffected\<close> (the first affected count)
  of the result the driver gave for the statement at that index.
\<close>

theorem transaction_runs_statements_in_input_order:
  assumes "transaction_handler e body s = (resp, s')"
  shows "(\<exists>k. k \<le> length (items_of (get_prop body ''queries''))
            \<and> map fst (tx_statements (new_events s s')) =
                map (\<lambda>queryInfo. get_prop queryInfo ''query'')
                  (take k (items_of (get_prop body ''queries''))))
       \<and> (fst resp = 200 \<longrightarrow>
            (\<exists>rs. length rs = length (items_of (get_prop body ''queries''))
               \<and> tx_statements (new_events s s') =
                   map (\<lambda>(queryInfo, r). (get_prop queryInfo ''query'', inputs_of e queryInfo, Inr r))
                     (zip (items_of (get_prop body ''queries'')) rs)
               \<and> get_prop (snd resp) ''results'' =
                   JArr (map (\<lambda>r. JObj [(''data'',
                                           (case recordset r of
                                              None \<Rightarrow> JUndefined
                                            | Some recs \<Rightarrow> JArr recs)),
                                          (''rowsAffected'',
                                           (case rowsAffected r of
                                              [] \<Rightarrow> JUndefined
                                            | n # ns \<Rightarrow> JNum n))])
                          rs)))"
  using transaction_statements_and_results[OF assms, unfolded statement_result_spelled] .

theorem transaction_runs_statements_in_input_order_witness:
  "transaction_handler numbered_env abc_body live_pool =
     ((200, JObj [(''success'', JBool True),
                  (''results'',
                   JArr [JObj [(''data'', JArr [JObj [(''q'', JStr ''A'')]]), (''rowsAffected'', JNum 1)],
                         JObj [(''data'', JArr [JObj [(''q'', JStr ''B'')]]), (''rowsAffected'', JNum 2)],
                         JObj [(''data'', JArr [JObj [(''q'', JStr ''C'')]]), (''rowsAffected'', JNum 3)]])]),
      \<lparr>pool = Some 1,
        trace = [DbBegin 1 None,
                 DbQuery (OfTransaction 1) [] (JStr ''A'') (Inr (numbered_result (JStr ''A'') 1)),
                 DbQuery (OfTransaction 1) [(''id'', JNum 7)] (JStr ''B'')
                   (Inr (numbered_result (JStr ''B'') 2)),
                 DbQuery (OfTransaction 1) [] (JStr ''C'') (Inr (numbered_result (JStr ''C'') 3)),
                 DbCommit 1 None]\<rparr>)
   \<and> items_of (get_prop abc_body ''queries'') =
        [JObj [(''query'', JStr ''A'')],
         JObj [(''query'', JStr ''B''), (''params'', JObj [(''id'', JNum 7)])],
         JObj [(''query'', JStr ''C'')]]
   \<and> map fst (tx_statements
         (new_events live_pool (snd (transaction_handler numbered_env abc_body live_pool)))) =
        [JStr ''A'', JStr ''B'', JStr ''C'']
   \<and> (\<exists>rs. length rs = length (items_of (get_prop abc_body ''queries''))
          \<and> tx_statements
               (new_events live_pool (snd (transaction_handler numbered_env abc_body live_pool))) =
              map (\<lambda>(queryInfo, r). (get_prop queryInfo ''query'', inputs_of numbered_env queryInfo, Inr r))
                (zip (items_of (get_prop abc_body ''queries'')) rs)
          \<and> get_prop (snd (fst (transaction_handler numbered_env abc_body live_pool))) ''results'' =
              JArr (map (\<lambda>r. JObj [(''data'',
                                      (case recordset r of
                                         None \<Rightarrow> JUndefined
                                       | Some recs \<Rightarrow> JArr recs)),
                                     (''rowsAffected'',
                                      (case rowsAffected r of
                                         [] \<Rightarrow> JUndefined
                                       | n # ns \<Rightarrow> JNum n))])
                     rs))"
proof -
  let ?run = "transaction_handler numbered_env abc_body live_pool"
  have q: "items_of (get_prop abc_body ''queries'') =
        [JObj [(''query'', JStr ''A'')],
         JObj [(''query'', JStr ''B''), (''params'', JObj [(''id'', JNum 7)])],
         JObj [(''query'', JStr ''C'')]]"
    by (simp add: abc_body_def get_prop_def)
  have st: "fst (fst ?run) = 200"
    by (simp add: abc_numbered_run)
  have tx: "map fst (tx_statements (new_events live_pool (snd ?run))) =
        [JStr ''A'', JStr ''B'', JStr ''C'']"
    unfolding abc_numbered_run by (simp add: new_events_def live_pool_def)
  from transaction_runs_statements_in_input_order
    [of numbered_env abc_body live_pool "fst ?run" "snd ?run"] st
  have "\<exists>rs. length rs = length (items_of (get_prop abc_body ''queries''))
          \<and> tx_statements (new_events live_pool (snd ?run)) =
              map (\<lambda>(queryInfo, r). (get_prop queryInfo ''query'', inputs_of numbered_env queryInfo, Inr r))
                (zip (items_of (get_prop abc_body ''queries'')) rs)
          \<and> get_prop (snd (fst ?run)) ''results'' =
              JArr (map (\<lambda>r. JObj [(''data'',
                                      (case recordset r of
                                         None \<Rightarrow> JUndefined
                                       | Some recs \<Rightarrow> JArr recs)),
                                     (''rowsAffected'',
                                      (case rowsAffected r of
                                         [] \<Rightarrow> JUndefined
                                       | n # ns \<Rightarrow> JNum n))])
                     rs)"
    by simp
  with abc_numbered_run q tx show ?thesis by blast
qed

lemma error_response_status_500: "fst (error_response e err) = 500"
  by (simp add: error_response_def)

text \<open>
  Claim C1.  For a request with a non-empty \<open>queries\<close> array: a response with status 200
  comes only after a commit that succeeded, which is the last event and the only commit,
  and its \<open>results\<close> hold one object per statement, built from the results the driver gave,
  all of which succeeded; every other response has status 500 and no \<open>results\<close> at all.
  When a statement fails with \<open>err\<close>, the response has status 500 and carries the message
  and the code of \<open>err\<close>, no commit is attempted, and the failure is followed in the trace
  by the log line and a rollback whose outcome is the driver's; when the rollback fails its
  error is logged and nothing more: the response is still that of \<open>err\<close>.
\<close>

theorem transaction_is_all_or_nothing:
  assumes "isArray (get_prop body ''queries'')"
    and "items_of (get_prop body ''queries'') \<noteq> []"
    and "transaction_handler e body s = ((st, b), s')"
  shows "(st = 200 \<longrightarrow>
            (\<exists>pre h rs. new_events s s' = pre @ [DbCommit h None] \<and> commits pre = []
               \<and> length rs = length (items_of (get_prop body ''queries''))
               \<and> map (\<lambda>x. snd (snd x)) (tx_statements (new_events s s')) = map Inr rs
               \<and> b = JObj [(''success'', JBool True),
                           (''results'',
                            JArr (map (\<lambda>r. JObj [(''data'',
                                                    (case recordset r of
                                                       None \<Rightarrow> JUndefined
                                                     | Some recs \<Rightarrow> JArr recs)),
                                                   (''rowsAffected'',
                                                    (case rowsAffected r of
                                                       [] \<Rightarrow> JUndefined
                                                     | n # ns \<Rightarrow> JNum n))])
                                   rs))]))
       \<and> (st \<noteq> 200 \<longrightarrow> st = 500 \<and> get_prop b ''results'' = JUndefined)
       \<and> ((q, ins, Inl err) \<in> set (tx_statements (new_events s s')) \<longrightarrow>
            (st, b) =
              (500, JObj [(''success'', JBool False),
                          (''error'', JStr (message err)),
                          (''errorCode'', (case code err of None \<Rightarrow> JUndefined | Some c \<Rightarrow> JStr c)),
                          (''stack'', (if node_env e = Some ''development''
                                       then JStr (stack err) else JUndefined))])
          \<and> commits (new_events s s') = []
          \<and> (\<exists>pre h post.
                new_events s s' =
                  pre @ [DbQuery (OfTransaction h) ins q (Inl err),
                         Console (HandlerError ''Transaction error:'' err),
                         DbRollback h
                           (transaction_rollback e
                              (trace s @ pre @ [DbQuery (OfTransaction h) ins q (Inl err),
                                                Console (HandlerError ''Transaction error:'' err)])
                              h)] @ post
              \<and> (case transaction_rollback e
                         (trace s @ pre @ [DbQuery (OfTransaction h) ins q (Inl err),
                                           Console (HandlerError ''Transaction error:'' err)])
                         h of
                    None \<Rightarrow> True
                  | Some rerr \<Rightarrow> take 1 post = [Console (RollbackFailed rerr)])))"
proof -
  let ?qs = "items_of (get_prop body ''queries'')"
  let ?T = "''Transaction error:''"
  let ?new = "new_events s s'"
  let ?resp = "\<lambda>err. (500::nat, JObj [(''success'', JBool False),
                          (''error'', JStr (message err)),
                          (''errorCode'', (case code err of None \<Rightarrow> JUndefined | Some c \<Rightarrow> JStr c)),
                          (''stack'', (if node_env e = Some ''development''
                                       then JStr (stack err) else JUndefined))])"
  have er: "\<And>err. error_response e err = ?resp err" by (simp add: error_response_def)
  from transaction_handler_trace[OF assms] obtain g where g: "list_all pool_event g" and
    sh: "(\<exists>err post. (st, b) = error_response e err
          \<and> trace s' = trace s @ g @ Console (HandlerError ?T err) # post
          \<and> list_all pool_event post)
    \<or> (\<exists>h b' rs tl err r post. (st, b) = error_response e err
          \<and> trace s' = trace s @ g @ (DbBegin h b' # ok_events e h ?qs rs @ tl)
                 @ Console (HandlerError ?T err) # DbRollback h r # post
          \<and> list_all pool_event post
          \<and> length rs \<le> length ?qs
          \<and> r = transaction_rollback e
                  (trace s @ g @ (DbBegin h b' # ok_events e h ?qs rs @ tl)
                     @ [Console (HandlerError ?T err)]) h
          \<and> (case r of None \<Rightarrow> True | Some rerr \<Rightarrow> take 1 post = [Console (RollbackFailed rerr)])
          \<and> ((b' = Some err \<and> rs = [] \<and> tl = [])
             \<or> (b' = None \<and> length rs < length ?qs
                  \<and> (tl = [] \<or> tl = [statement_event e h (?qs ! length rs) (Inl err)]))
             \<or> (b' = None \<and> length rs = length ?qs \<and> tl = [DbCommit h (Some err)])))
    \<or> (\<exists>h rs. (st, b) = (200, JObj [(''success'', JBool True),
                                    (''results'', JArr (map statement_result rs))])
          \<and> length rs = length ?qs
          \<and> trace s' = trace s @ g @ DbBegin h None # ok_events e h ?qs rs @ [DbCommit h None])"
    by blast
  note ntx = pool_events_no_tx[OF g]
  note nco = pool_events_no_commit[OF g]
  from sh consider
    (guard) err0 post where "(st, b) = error_response e err0"
      "trace s' = trace s @ g @ Console (HandlerError ?T err0) # post" "list_all pool_event post"
  | (failed) h b' rs tl err0 r post where "(st, b) = error_response e err0"
      "trace s' = trace s @ g @ (DbBegin h b' # ok_events e h ?qs rs @ tl)
                 @ Console (HandlerError ?T err0) # DbRollback h r # post"
      "list_all pool_event post"
      "(case r of None \<Rightarrow> True | Some rerr \<Rightarrow> take 1 post = [Console (RollbackFailed rerr)])"
      "tl = [] \<or> tl = [statement_event e h (?qs ! length rs) (Inl err0)]
         \<or> tl = [DbCommit h (Some err0)]"
      "r = transaction_rollback e
                  (trace s @ g @ (DbBegin h b' # ok_events e h ?qs rs @ tl)
                     @ [Console (HandlerError ?T err0)]) h"
  | (committed) h rs where
      "(st, b) = (200, JObj [(''success'', JBool True), (''results'', JArr (map statement_result rs))])"
      "length rs = length ?qs"
      "trace s' = trace s @ g @ DbBegin h None # ok_events e h ?qs rs @ [DbCommit h None]"
    by blast
  then show ?thesis
  proof cases
    case guard
    have tx: "tx_statements ?new = []"
      by (simp add: new_events_append[OF guard(2)] tx_statements_append ntx
          pool_events_no_tx[OF guard(3)])
    from guard(1) have "st = 500" "get_prop b ''results'' = JUndefined"
      using error_response_status_500[of e err0] error_response_no_results[of e err0]
      by (metis fst_conv, metis snd_conv)
    with tx show ?thesis by simp
  next
    case committed
    let ?pre = "g @ DbBegin h None # ok_events e h ?qs rs"
    have n: "?new = ?pre @ [DbCommit h None]"
      by (simp add: new_events_append[OF committed(3)])
    have cp: "commits ?pre = []"
      by (simp add: commits_append nco commits_ok_events)
    have tx: "tx_statements ?new =
        map (\<lambda>(queryInfo, r). (get_prop queryInfo ''query'', inputs_of e queryInfo, Inr r)) (zip ?qs rs)"
      by (simp add: new_events_append[OF committed(3)] tx_statements_append ntx
          tx_statements_ok_events)
    have out: "map (\<lambda>x. snd (snd x)) (tx_statements ?new) = map Inr rs"
    proof -
      have "map (\<lambda>x. snd (snd x)) (tx_statements ?new) = map Inr (map snd (zip ?qs rs))"
        unfolding tx by (simp add: case_prod_beta comp_def)
      with committed(2) show ?thesis by simp
    qed
    have noinl: "(q, ins, Inl err) \<notin> set (tx_statements ?new)"
      unfolding tx by (auto dest: set_zip_rightD)
    from committed(1) have "st = 200"
      "b = JObj [(''success'', JBool True),
                 (''results'',
                  JArr (map (\<lambda>r. JObj [(''data'',
                                          (case recordset r of
                                             None \<Rightarrow> JUndefined
                                           | Some recs \<Rightarrow> JArr recs)),
                                         (''rowsAffected'',
                                          (case rowsAffected r of
                                             [] \<Rightarrow> JUndefined
                                           | n # ns \<Rightarrow> JNum n))])
                         rs))]"
      by (simp_all add: statement_result_spelled)
    with n cp out committed(2) noinl show ?thesis by blast
  next
    case failed
    from failed(1) have st: "st = 500" "get_prop b ''results'' = JUndefined"
      using error_response_status_500[of e err0] error_response_no_results[of e err0]
      by (metis fst_conv, metis snd_conv)
    have n: "?new = g @ (DbBegin h b' # ok_events e h ?qs rs @ tl)
                 @ Console (HandlerError ?T err0) # DbRollback h r # post"
      by (rule new_events_append[OF failed(2)])
    have tx: "tx_statements ?new = tx_statements (ok_events e h ?qs rs) @ tx_statements tl"
      by (simp add: n tx_statements_append ntx pool_events_no_tx[OF failed(3)])
    have third: "(q, ins, Inl err) \<in> set (tx_statements ?new) \<longrightarrow>
            (st, b) = ?resp err
          \<and> commits ?new = []
          \<and> (\<exists>pre h post.
                ?new = pre @ [DbQuery (OfTransaction h) ins q (Inl err),
                         Console (HandlerError ?T err),
                         DbRollback h
                           (transaction_rollback e
                              (trace s @ pre @ [DbQuery (OfTransaction h) ins q (Inl err),
                                                Console (HandlerError ?T err)])
                              h)] @ post
              \<and> (case transaction_rollback e
                         (trace s @ pre @ [DbQuery (OfTransaction h) ins q (Inl err),
                                           Console (HandlerError ?T err)])
                         h of
                    None \<Rightarrow> True
                  | Some rerr \<Rightarrow> take 1 post = [Console (RollbackFailed rerr)]))"
    proof
      assume m: "(q, ins, Inl err) \<in> set (tx_statements ?new)"
      with tx ok_events_outcomes[of q ins "Inl err" e h ?qs rs]
      have mt: "(q, ins, Inl err) \<in> set (tx_statements tl)" by auto
      with failed(5) have tl: "tl = [statement_event e h (?qs ! length rs) (Inl err0)]"
        by auto
      with mt have eq: "err = err0"
        "statement_event e h (?qs ! length rs) (Inl err0) = DbQuery (OfTransaction h) ins q (Inl err)"
        by (simp_all add: statement_event_def)
      have c: "commits ?new = []"
        by (simp add: n commits_append nco commits_ok_events tl statement_event_def
            pool_events_no_commit[OF failed(3)])
      let ?pre = "g @ DbBegin h b' # ok_events e h ?qs rs"
      let ?t = "trace s @ ?pre @ [DbQuery (OfTransaction h) ins q (Inl err),
                                  Console (HandlerError ?T err)]"
      have rv: "r = transaction_rollback e ?t h"
        using failed(6) tl eq by simp
      have nn: "?new = ?pre @ [DbQuery (OfTransaction h) ins q (Inl err),
                  Console (HandlerError ?T err), DbRollback h (transaction_rollback e ?t h)] @ post"
        using n tl eq rv by simp
      have cs: "(case transaction_rollback e ?t h of
                    None \<Rightarrow> True
                  | Some rerr \<Rightarrow> take 1 post = [Console (RollbackFailed rerr)])"
        using failed(4) rv by simp
      have rs: "(st, b) = ?resp err" using failed(1) eq(1) er by simp
      from nn cs have "\<exists>pre h post.
                ?new = pre @ [DbQuery (OfTransaction h) ins q (Inl err),
                         Console (HandlerError ?T err),
                         DbRollback h
                           (transaction_rollback e
                              (trace s @ pre @ [DbQuery (OfTransaction h) ins q (Inl err),
                                                Console (HandlerError ?T err)])
                              h)] @ post
              \<and> (case transaction_rollback e
                         (trace s @ pre @ [DbQuery (OfTransaction h) ins q (Inl err),
                                           Console (HandlerError ?T err)])
                         h of
                    None \<Rightarrow> True
                  | Some rerr \<Rightarrow> take 1 post = [Console (RollbackFailed rerr)])"
        by blast
      with rs c show "(st, b) = ?resp err
          \<and> commits ?new = []
          \<and> (\<exists>pre h post.
                ?new = pre @ [DbQuery (OfTransaction h) ins q (Inl err),
                         Console (HandlerError ?T err),
                         DbRollback h
                           (transaction_rollback e
                              (trace s @ pre @ [DbQuery (OfTransaction h) ins q (Inl err),
                                                Console (HandlerError ?T err)])
                              h)] @ post
              \<and> (case transaction_rollback e
                         (trace s @ pre @ [DbQuery (OfTransaction h) ins q (Inl err),
                                           Console (HandlerError ?T err)])
                         h of
                    None \<Rightarrow> True
                  | Some rerr \<Rightarrow> take 1 post = [Console (RollbackFailed rerr)]))"
        by blast
    qed
    with st show ?thesis by simp
  qed
qed

theorem transaction_is_all_or_nothing_witness:
  "isArray (get_prop abc_body ''queries'')
   \<and> items_of (get_prop abc_body ''queries'') \<noteq> []
   \<and> (JStr ''B'', [(''id'', JNum 7)], Inl bad_syntax)
        \<in> set (tx_statements (new_events live_pool
                 (snd (transaction_handler broken_tx_env abc_body live_pool))))
   \<and> transaction_rollback broken_tx_env
        [DbBegin 1 None,
         DbQuery (OfTransaction 1) [] (JStr ''A'') (Inr one_row),
         DbQuery (OfTransaction 1) [(''id'', JNum 7)] (JStr ''B'') (Inl bad_syntax),
         Console (HandlerError ''Transaction error:'' bad_syntax)] 1 = Some timed_out
   \<and> transaction_handler broken_tx_env abc_body live_pool =
        ((500, JObj [(''success'', JBool False),
                     (''error'', JStr ''Incorrect syntax near FORM.''),
                     (''errorCode'', JStr ''EREQUEST''),
                     (''stack'', JUndefined)]),
         \<lparr>pool = Some 1,
           trace = [DbBegin 1 None,
                    DbQuery (OfTransaction 1) [] (JStr ''A'') (Inr one_row),
                    DbQuery (OfTransaction 1) [(''id'', JNum 7)] (JStr ''B'') (Inl bad_syntax),
                    Console (HandlerError ''Transaction error:'' bad_syntax),
                    DbRollback 1 (Some timed_out),
                    Console (RollbackFailed timed_out)]\<rparr>)
   \<and> get_prop (snd (fst (transaction_handler broken_tx_env abc_body live_pool))) ''results'' =
        JUndefined
   \<and> commits (new_events live_pool
        (snd (transaction_handler broken_tx_env abc_body live_pool))) = []
   \<and> transaction_handler numbered_env abc_body live_pool =
     ((200, JObj [(''success'', JBool True),
                  (''results'',
                   JArr [JObj [(''data'', JArr [JObj [(''q'', JStr ''A'')]]), (''rowsAffected'', JNum 1)],
                         JObj [(''data'', JArr [JObj [(''q'', JStr ''B'')]]), (''rowsAffected'', JNum 2)],
                         JObj [(''data'', JArr [JObj [(''q'', JStr ''C'')]]), (''rowsAffected'', JNum 3)]])]),
      \<lparr>pool = Some 1,
        trace = [DbBegin 1 None,
                 DbQuery (OfTransaction 1) [] (JStr ''A'') (Inr (numbered_result (JStr ''A'') 1)),
                 DbQuery (OfTransaction 1) [(''id'', JNum 7)] (JStr ''B'')
                   (Inr (numbered_result (JStr ''B'') 2)),
                 DbQuery (OfTransaction 1) [] (JStr ''C'') (Inr (numbered_result (JStr ''C'') 3)),
                 DbCommit 1 None]\<rparr>)
   \<and> (\<exists>pre h rs.
         new_events live_pool (snd (transaction_handler numbered_env abc_body live_pool)) =
           pre @ [DbCommit h None]
       \<and> commits pre = []
       \<and> length rs = length (items_of (get_prop abc_body ''queries''))
       \<and> map (\<lambda>x. snd (snd x))
            (tx_statements (new_events live_pool
               (snd (transaction_handler numbered_env abc_body live_pool)))) = map Inr rs
       \<and> snd (fst (transaction_handler numbered_env abc_body live_pool)) =
           JObj [(''success'', JBool True),
                 (''results'',
                  JArr (map (\<lambda>r. JObj [(''data'',
                                          (case recordset r of
                                             None \<Rightarrow> JUndefined
                                           | Some recs \<Rightarrow> JArr recs)),
                                         (''rowsAffected'',
                                          (case rowsAffected r of
                                             [] \<Rightarrow> JUndefined
                                           | n # ns \<Rightarrow> JNum n))])
                         rs))])"
proof -
  let ?bad = "transaction_handler broken_tx_env abc_body live_pool"
  let ?good = "transaction_handler numbered_env abc_body live_pool"
  have v1: "isArray (get_prop abc_body ''queries'')"
    and v2: "items_of (get_prop abc_body ''queries'') \<noteq> []"
    by (simp_all add: abc_body_def get_prop_def)
  have rb: "?bad = ((fst (fst ?bad), snd (fst ?bad)), snd ?bad)" by simp
  have rg: "?good = ((fst (fst ?good), snd (fst ?good)), snd ?good)" by simp
  have m: "(JStr ''B'', [(''id'', JNum 7)], Inl bad_syntax)
        \<in> set (tx_statements (new_events live_pool (snd ?bad)))"
    unfolding abc_broken_run by (simp add: new_events_def live_pool_def)
  have rbk: "transaction_rollback broken_tx_env
        [DbBegin 1 None,
         DbQuery (OfTransaction 1) [] (JStr ''A'') (Inr one_row),
         DbQuery (OfTransaction 1) [(''id'', JNum 7)] (JStr ''B'') (Inl bad_syntax),
         Console (HandlerError ''Transaction error:'' bad_syntax)] 1 = Some timed_out"
    by (simp add: broken_tx_env_def healthy_env_def)
  have sb: "fst (fst ?bad) \<noteq> 200"
    unfolding abc_broken_run by (simp add: error_response_def)
  have sg: "fst (fst ?good) = 200"
    unfolding abc_numbered_run by simp
  have env: "node_env broken_tx_env = Some ''production''"
    by (simp add: broken_tx_env_def healthy_env_def)
  note B = transaction_is_all_or_nothing[OF v1 v2 rb,
      of "JStr ''B''" "[(''id'', JNum 7)]" bad_syntax]
  note G = transaction_is_all_or_nothing[OF v1 v2 rg]
  from B m have "(fst (fst ?bad), snd (fst ?bad)) =
      (500, JObj [(''success'', JBool False),
                  (''error'', JStr (message bad_syntax)),
                  (''errorCode'', (case code bad_syntax of None \<Rightarrow> JUndefined | Some c \<Rightarrow> JStr c)),
                  (''stack'', (if node_env broken_tx_env = Some ''development''
                               then JStr (stack bad_syntax) else JUndefined))])"
    and b2: "commits (new_events live_pool (snd ?bad)) = []"
    by blast+
  then have b1: "fst ?bad =
      (500, JObj [(''success'', JBool False),
                  (''error'', JStr ''Incorrect syntax near FORM.''),
                  (''errorCode'', JStr ''EREQUEST''),
                  (''stack'', JUndefined)])"
    by (simp add: env) (simp add: bad_syntax_def)
  have b1s: "snd ?bad =
         \<lparr>pool = Some 1,
           trace = [DbBegin 1 None,
                    DbQuery (OfTransaction 1) [] (JStr ''A'') (Inr one_row),
                    DbQuery (OfTransaction 1) [(''id'', JNum 7)] (JStr ''B'') (Inl bad_syntax),
                    Console (HandlerError ''Transaction error:'' bad_syntax),
                    DbRollback 1 (Some timed_out),
                    Console (RollbackFailed timed_out)]\<rparr>"
    by (simp add: abc_broken_run)
  from b1 b1s have b1f: "?bad =
        ((500, JObj [(''success'', JBool False),
                     (''error'', JStr ''Incorrect syntax near FORM.''),
                     (''errorCode'', JStr ''EREQUEST''),
                     (''stack'', JUndefined)]),
         \<lparr>pool = Some 1,
           trace = [DbBegin 1 None,
                    DbQuery (OfTransaction 1) [] (JStr ''A'') (Inr one_row),
                    DbQuery (OfTransaction 1) [(''id'', JNum 7)] (JStr ''B'') (Inl bad_syntax),
                    Console (HandlerError ''Transaction error:'' bad_syntax),
                    DbRollback 1 (Some timed_out),
                    Console (RollbackFailed timed_out)]\<rparr>)"
    by (metis prod.collapse)
  from B sb have b3: "get_prop (snd (fst ?bad)) ''results'' = JUndefined" by blast
  from G sg have g1: "\<exists>pre h rs.
         new_events live_pool (snd ?good) = pre @ [DbCommit h None]
       \<and> commits pre = []
       \<and> length rs = length (items_of (get_prop abc_body ''queries''))
       \<and> map (\<lambda>x. snd (snd x)) (tx_statements (new_events live_pool (snd ?good))) = map Inr rs
       \<and> snd (fst ?good) =
           JObj [(''success'', JBool True),
                 (''results'',
                  JArr (map (\<lambda>r. JObj [(''data'',
                                          (case recordset r of
                                             None \<Rightarrow> JUndefined
                                           | Some recs \<Rightarrow> JArr recs)),
                                         (''rowsAffected'',
                                          (case rowsAffected r of
                                             [] \<Rightarrow> JUndefined
                                           | n # ns \<Rightarrow> JNum n))])
                         rs))]"
    by blast
  from v1 v2 m rbk b1f b3 b2 abc_numbered_run g1 show ?thesis by blast
qed

end
